theory Spec2Isabelle
  imports Main "HOL-Library.Sublist"
begin

section \<open>Python values used by the script\<close>

text \<open>
  The script \<^verbatim>\<open>jules-scratch/verification/verify_theme_switching.py\<close> is one procedure,
  \<^verbatim>\<open>test_theme_switching\<close>. Its exceptions are values of \<open>exn\<close>: the one it raises
  itself (\<^verbatim>\<open>Exception("Could not find extension ID")\<close>), the \<^verbatim>\<open>IndexError\<close> of a list
  subscript, the \<^verbatim>\<open>OSError\<close>s of the file system, and whatever the browser driver raises.
  All of them derive from Python's \<^verbatim>\<open>Exception\<close>, so \<^verbatim>\<open>except Exception\<close> catches each.
  Exceptions that do not (\<^verbatim>\<open>KeyboardInterrupt\<close>, \<^verbatim>\<open>SystemExit\<close>) come from outside the
  calls of the script and are not part of the model.
\<close>

datatype exn =
    Exception string
  | IndexError
  | FileExistsError
  | FileNotFoundError
  | NotADirectoryError
  | IsADirectoryError
  | DriverError string

text \<open>\<^verbatim>\<open>s.startswith(p)\<close>.\<close>

fun startswith :: "string \<Rightarrow> string \<Rightarrow> bool" where
  "startswith s [] = True"
| "startswith [] (c # cs) = False"
| "startswith (x # xs) (c # cs) = (x = c \<and> startswith xs cs)"

text \<open>\<^verbatim>\<open>sub in s\<close> on strings: \<open>sub\<close> occurs in \<open>s\<close> as a contiguous block.\<close>

fun contains :: "string \<Rightarrow> string \<Rightarrow> bool" where
  "contains sub [] = (sub = [])"
| "contains sub (x # xs) = (startswith (x # xs) sub \<or> contains sub xs)"

text \<open>
  \<^verbatim>\<open>s.split(sep)\<close> for a separator of one character: the pieces between the separators,
  so \<open>n\<close> separators give \<open>n + 1\<close> pieces and the empty string gives one empty piece.
  The last case of the \<open>case\<close> is never taken (\<open>py_split\<close> returns no empty list).
\<close>

fun py_split :: "char \<Rightarrow> string \<Rightarrow> string list" where
  "py_split sep [] = [[]]"
| "py_split sep (x # xs) =
     (if x = sep then [] # py_split sep xs
      else (case py_split sep xs of
              w # ws \<Rightarrow> (x # w) # ws
            | [] \<Rightarrow> [[x]]))"

text \<open>\<^verbatim>\<open>xs[n]\<close> for a literal \<open>n \<ge> 0\<close>: out of range raises \<^verbatim>\<open>IndexError\<close>.\<close>

definition py_index :: "'a list \<Rightarrow> nat \<Rightarrow> exn + 'a" where
  "py_index xs n = (if n < length xs then Inr (xs ! n) else Inl IndexError)"

text \<open>
  \<^verbatim>\<open>not extension_id\<close>: the variable holds \<^verbatim>\<open>None\<close> or a string, and is falsy when it is
  \<^verbatim>\<open>None\<close> or the empty string.
\<close>

definition falsy :: "string option \<Rightarrow> bool" where
  "falsy v = (v = None \<or> v = Some [])"

section \<open>Browser contexts\<close>

text \<open>
  A service worker is read through its \<^verbatim>\<open>url\<close> only; a page also through \<^verbatim>\<open>title()\<close>,
  a call to the driver that returns the title or raises. The scan asks each page at most
  once, so the answer is kept with the page.
\<close>

record target =
  url :: string

record page = target +
  title :: "exn + string"

section \<open>Extension-identifier discovery\<close>

text \<open>The expression \<^verbatim>\<open>X.url.split("/")[2]\<close> of lines 27 and 35.\<close>

definition extract_id :: "string \<Rightarrow> exn + string" where
  "extract_id u = py_index (py_split CHR ''/'' u) 2"

text \<open>
  Lines 22 to 30. The \<^verbatim>\<open>try\<close> block holds the title query and the subscript; what either
  raises is dropped by \<^verbatim>\<open>except Exception: pass\<close> and the loop goes on with the next
  page. \<open>None\<close> is the initial \<^verbatim>\<open>extension_id = None\<close> left by a loop without
  \<^verbatim>\<open>break\<close>.
\<close>

fun scan_pages :: "page list \<Rightarrow> string option" where
  "scan_pages [] = None"
| "scan_pages (p # ps) =
     (if startswith (url p) ''chrome-extension://'' then
        (case title p of
           Inl e \<Rightarrow> scan_pages ps
         | Inr t \<Rightarrow>
             if t = ''Password Memo'' then
               (case extract_id (url p) of
                  Inl e \<Rightarrow> scan_pages ps
                | Inr i \<Rightarrow> Some i)
             else scan_pages ps)
      else scan_pages ps)"

text \<open>
  Lines 33 to 36, the loop over \<^verbatim>\<open>context.service_workers\<close>. There is no \<^verbatim>\<open>try\<close> here:
  the subscript's \<^verbatim>\<open>IndexError\<close> leaves the procedure. A loop without a match leaves
  \<^verbatim>\<open>extension_id\<close> as it was.
\<close>

fun scan_workers :: "string option \<Rightarrow> target list \<Rightarrow> exn + string option" where
  "scan_workers eid [] = Inr eid"
| "scan_workers eid (t # ts) =
     (if contains ''background'' (url t) then
        (case extract_id (url t) of
           Inl e \<Rightarrow> Inl e
         | Inr i \<Rightarrow> Inr (Some i))
      else scan_workers eid ts)"

text \<open>
  Lines 22 to 39: the page scan, the fallback under \<^verbatim>\<open>if not extension_id\<close>, and the
  final \<^verbatim>\<open>if not extension_id: raise Exception("Could not find extension ID")\<close>.
\<close>

definition discover :: "page list \<Rightarrow> target list \<Rightarrow> exn + string" where
  "discover ps ts =
     (let eid = scan_pages ps in
      case (if falsy eid then scan_workers eid ts else Inr eid) of
        Inl e \<Rightarrow> Inl e
      | Inr eid' \<Rightarrow>
          (case eid' of
             None \<Rightarrow> Inl (Exception ''Could not find extension ID'')
           | Some i \<Rightarrow>
               if i = [] then Inl (Exception ''Could not find extension ID'')
               else Inr i))"

text \<open>
  The same discovery in the words of the specification: two lookup strategies tried in
  order. The first is the first page, in list order, whose URL starts with the extension
  scheme and whose title is the product name; the second, consulted only when the first
  gives no non-empty identifier, is the first service worker whose URL contains the
  marker.
\<close>

definition page_matches :: "page \<Rightarrow> bool" where
  "page_matches p =
     (startswith (url p) ''chrome-extension://'' \<and> title p = Inr ''Password Memo'')"

definition worker_matches :: "target \<Rightarrow> bool" where
  "worker_matches t = contains ''background'' (url t)"

definition first_page_id :: "page list \<Rightarrow> string option" where
  "first_page_id ps =
     (case find page_matches ps of
        None \<Rightarrow> None
      | Some p \<Rightarrow> (case extract_id (url p) of Inl e \<Rightarrow> None | Inr i \<Rightarrow> Some i))"

definition discover_ordered :: "page list \<Rightarrow> target list \<Rightarrow> exn + string" where
  "discover_ordered ps ts =
     (case first_page_id ps of
        Some (c # cs) \<Rightarrow> Inr (c # cs)
      | _ \<Rightarrow>
          (case find worker_matches ts of
             None \<Rightarrow> Inl (Exception ''Could not find extension ID'')
           | Some t \<Rightarrow>
               (case extract_id (url t) of
                  Inl e \<Rightarrow> Inl e
                | Inr [] \<Rightarrow> Inl (Exception ''Could not find extension ID'')
                | Inr (c # cs) \<Rightarrow> Inr (c # cs))))"

section \<open>The file system under the working directory\<close>

text \<open>
  The script reaches the file system through \<^verbatim>\<open>os.makedirs\<close> and through the files the
  screenshots write. A node is a regular file with its bytes or a directory with its
  entries; the working directory is the root, and a relative path such as
  \<^verbatim>\<open>jules-scratch/verification\<close> is the list of its components.
\<close>

datatype node = File string | Dir "string \<Rightarrow> node option"

definition path_of :: "string \<Rightarrow> string list" where
  "path_of s = py_split CHR ''/'' s"

fun lookup :: "node \<Rightarrow> string list \<Rightarrow> node option" where
  "lookup n [] = Some n"
| "lookup (File b) (c # cs) = None"
| "lookup (Dir entries) (c # cs) =
     (case entries c of None \<Rightarrow> None | Some n \<Rightarrow> lookup n cs)"

text \<open>\<^verbatim>\<open>os.path.isdir\<close>.\<close>

definition isdir :: "node \<Rightarrow> string list \<Rightarrow> bool" where
  "isdir d p = (case lookup d p of Some (Dir entries) \<Rightarrow> True | _ \<Rightarrow> False)"


text \<open>
  \<^verbatim>\<open>os.mkdir\<close>: the parent must be a directory (\<^verbatim>\<open>ENOENT\<close>, \<^verbatim>\<open>ENOTDIR\<close> otherwise) and
  the name must be free (\<^verbatim>\<open>EEXIST\<close> otherwise).
\<close>

fun mkdir :: "node \<Rightarrow> string list \<Rightarrow> exn + node" where
  "mkdir d [] = Inl FileNotFoundError"
| "mkdir (File b) (c # cs) = Inl NotADirectoryError"
| "mkdir (Dir entries) [c] =
     (case entries c of
        None \<Rightarrow> Inr (Dir (entries(c \<mapsto> Dir Map.empty)))
      | Some n \<Rightarrow> Inl FileExistsError)"
| "mkdir (Dir entries) (c # c' # cs) =
     (case entries c of
        None \<Rightarrow> Inl FileNotFoundError
      | Some n \<Rightarrow>
          (case mkdir n (c' # cs) of
             Inl e \<Rightarrow> Inl e
           | Inr n' \<Rightarrow> Inr (Dir (entries(c \<mapsto> n')))))"

text \<open>
  \<^verbatim>\<open>os.makedirs(name, exist_ok=...)\<close> as the standard library writes it: create the
  parent first when it does not exist (a \<^verbatim>\<open>FileExistsError\<close> from there is passed over),
  then \<^verbatim>\<open>mkdir(name)\<close>, whose \<^verbatim>\<open>OSError\<close> is raised again unless \<^verbatim>\<open>exist_ok\<close> holds and
  \<^verbatim>\<open>name\<close> is a directory. The result is the file system reached and the exception, if
  any. The parent of a path is the path without its last component (the paths of the
  script have no \<^verbatim>\<open>.\<close>, no \<^verbatim>\<open>..\<close> and no empty component).
\<close>

function makedirs :: "node \<Rightarrow> string list \<Rightarrow> bool \<Rightarrow> node \<times> exn option" where
  "makedirs d name exist_ok =
     (let r = (if butlast name \<noteq> [] \<and> name \<noteq> [] \<and> lookup d (butlast name) = None then
                 (case makedirs d (butlast name) exist_ok of
                    (d', None) \<Rightarrow> (d', None)
                  | (d', Some e) \<Rightarrow>
                      if e = FileExistsError then (d', None) else (d', Some e))
               else (d, None))
      in case r of
           (d1, Some e) \<Rightarrow> (d1, Some e)
         | (d1, None) \<Rightarrow>
             (case mkdir d1 name of
                Inr d2 \<Rightarrow> (d2, None)
              | Inl e \<Rightarrow>
                  if \<not> exist_ok \<or> \<not> isdir d1 name then (d1, Some e) else (d1, None)))"
  by pat_completeness auto
termination
  by (relation "measure (\<lambda>(d, name, exist_ok). length name)") auto

declare makedirs.simps [simp del]

text \<open>
  \<^verbatim>\<open>page.screenshot(path=...)\<close> saves the captured image at the path: the file is opened
  for writing in binary mode, which replaces what a regular file at the path held; a
  directory at the path is \<^verbatim>\<open>IsADirectoryError\<close>, a missing parent \<^verbatim>\<open>FileNotFoundError\<close>.
\<close>

fun write_file :: "node \<Rightarrow> string list \<Rightarrow> string \<Rightarrow> exn + node" where
  "write_file d [] b = Inl FileNotFoundError"
| "write_file (File b') (c # cs) b = Inl NotADirectoryError"
| "write_file (Dir entries) [c] b =
     (case entries c of
        Some (Dir sub) \<Rightarrow> Inl IsADirectoryError
      | _ \<Rightarrow> Inr (Dir (entries(c \<mapsto> File b))))"
| "write_file (Dir entries) (c # c' # cs) b =
     (case entries c of
        None \<Rightarrow> Inl FileNotFoundError
      | Some n \<Rightarrow>
          (case write_file n (c' # cs) b of
             Inl e \<Rightarrow> Inl e
           | Inr n' \<Rightarrow> Inr (Dir (entries(c \<mapsto> n')))))"

section \<open>The run of the script\<close>

text \<open>
  Every call the script makes on the outside world is an action, in the order of the
  source: launching the persistent context (line 10), \<^verbatim>\<open>time.sleep\<close> (19), the two
  \<^verbatim>\<open>print\<close>s (41, 45), \<^verbatim>\<open>new_page\<close> (46), \<^verbatim>\<open>goto\<close> (47), the visibility expectation with
  its timeout in milliseconds (50), \<^verbatim>\<open>os.makedirs\<close> (53), the screenshots (56, 60, 64),
  the clicks on a role and name (59, 63) and \<^verbatim>\<open>context.close\<close> (66).
\<close>

datatype action =
    Launch string bool "string list"
  | Sleep nat
  | Print string
  | NewPage
  | Goto string
  | ExpectVisible string nat
  | Makedirs string bool
  | Screenshot string
  | Click string string
  | Close

text \<open>
  The world the script runs in: the absolute path of a relative one, the pages and service
  workers the launched context shows after the sleep, which calls raise and what, and the
  image a screenshot captures.
\<close>

record world =
  abspath :: "string \<Rightarrow> string"
  pages :: "page list"
  service_workers :: "target list"
  raises :: "action \<Rightarrow> exn option"
  capture :: "string \<Rightarrow> string"

text \<open>
  A call raises what the world says, or else has its effect on the file system: the
  directory creation and the saved screenshots change it, the other calls leave it as it
  is. No call occurs twice in the script, so the world answers a call by the call alone.
\<close>

fun effect :: "world \<Rightarrow> action \<Rightarrow> node \<Rightarrow> node \<times> exn option" where
  "effect w (Makedirs name exist_ok) d = makedirs d (path_of name) exist_ok"
| "effect w (Screenshot path) d =
     (case write_file d (path_of path) (capture w path) of
        Inl e \<Rightarrow> (d, Some e)
      | Inr d' \<Rightarrow> (d', None))"
| "effect w a d = (d, None)"

definition perform :: "world \<Rightarrow> action \<Rightarrow> node \<Rightarrow> node \<times> exn option" where
  "perform w a d = (case raises w a of Some e \<Rightarrow> (d, Some e) | None \<Rightarrow> effect w a d)"

text \<open>
  The state of a run: the calls made so far, the file system, and the exception that
  ended it. Statements in sequence stop at the first exception; nothing in the script
  outside the page scan catches one.
\<close>

record run =
  trace :: "action list"
  disk :: node
  raised :: "exn option"

fun run_steps :: "world \<Rightarrow> action list \<Rightarrow> run \<Rightarrow> run" where
  "run_steps w [] r = r"
| "run_steps w (a # as) r =
     (case perform w a (disk r) of
        (d, None) \<Rightarrow> run_steps w as (r\<lparr>trace := trace r @ [a], disk := d\<rparr>)
      | (d, Some e) \<Rightarrow> r\<lparr>trace := trace r @ [a], disk := d, raised := Some e\<rparr>)"

text \<open>
  The file-system part of \<open>run_steps\<close> alone: what a list of calls does to the file
  system when no call raises in the driver, up to the first error of the file system.
\<close>

fun effects :: "world \<Rightarrow> action list \<Rightarrow> node \<Rightarrow> node \<times> exn option" where
  "effects w [] d = (d, None)"
| "effects w (a # as) d =
     (case effect w a d of
        (d', None) \<Rightarrow> effects w as d'
      | (d', Some e) \<Rightarrow> (d', Some e))"

text \<open>Lines 7 to 19.\<close>

definition setup_steps :: "world \<Rightarrow> action list" where
  "setup_steps w =
     (let extension_path = abspath w ''password-memo-browser/dist'';
          user_data_dir = ''/tmp/test-user-data-dir''
      in [Launch user_data_dir True
            [''--disable-extensions-except='' @ extension_path,
             ''--load-extension='' @ extension_path],
          Sleep 2])"

text \<open>Line 44.\<close>

definition options_page_url :: "string \<Rightarrow> string" where
  "options_page_url extension_id = ''chrome-extension://'' @ extension_id @ ''/options.html''"

text \<open>Lines 41 to 66.\<close>

definition main_steps :: "string \<Rightarrow> action list" where
  "main_steps extension_id =
     [Print (''Extension ID: '' @ extension_id),
      Print (''Navigating to: '' @ options_page_url extension_id),
      NewPage,
      Goto (options_page_url extension_id),
      ExpectVisible ''Theme'' 10000,
      Makedirs ''jules-scratch/verification'' True,
      Screenshot ''jules-scratch/verification/01_default_theme.png'',
      Click ''button'' ''Light'',
      Screenshot ''jules-scratch/verification/02_light_theme.png'',
      Click ''button'' ''Dark'',
      Screenshot ''jules-scratch/verification/03_dark_theme.png'',
      Close]"

text \<open>
  The body of the \<^verbatim>\<open>with\<close> block of \<^verbatim>\<open>test_theme_switching\<close>, started on the file system
  \<open>d\<close>. Entering and leaving \<^verbatim>\<open>sync_playwright()\<close> starts and stops the driver process
  around the body and is outside the model.
\<close>

definition test_theme_switching :: "world \<Rightarrow> node \<Rightarrow> run" where
  "test_theme_switching w d =
     (let r = run_steps w (setup_steps w) \<lparr>trace = [], disk = d, raised = None\<rparr> in
      if raised r \<noteq> None then r
      else
        (case discover (pages w) (service_workers w) of
           Inl e \<Rightarrow> r\<lparr>raised := Some e\<rparr>
         | Inr extension_id \<Rightarrow> run_steps w (main_steps extension_id) r))"

section \<open>Example inputs\<close>

text \<open>
  Concrete pages and worlds at which the theorems below are evaluated. The popup page of
  the extension with identifier \<open>i\<close>, and a world given by its pages, its service workers
  and the calls that raise.
\<close>

definition popup_page :: "string \<Rightarrow> page" where
  "popup_page i =
     \<lparr>url = ''chrome-extension://'' @ i @ ''/popup.html'', title = Inr ''Password Memo''\<rparr>"

definition example_world :: "page list \<Rightarrow> target list \<Rightarrow> (action \<Rightarrow> exn option) \<Rightarrow> world" where
  "example_world ps ts rs =
     \<lparr>abspath = (\<lambda>p. ''/repo/'' @ p), pages = ps, service_workers = ts,
      raises = rs, capture = (\<lambda>p. ''image of '' @ p)\<rparr>"

text \<open>
  A working directory in which an earlier run left the output directory and its first
  screenshot.
\<close>

definition earlier_run_disk :: node where
  "earlier_run_disk =
     Dir [''jules-scratch'' \<mapsto>
       Dir [''verification'' \<mapsto>
         Dir [''01_default_theme.png'' \<mapsto> File ''old image'']]]"

text \<open>
  A working directory in which a regular file is named \<^verbatim>\<open>jules-scratch\<close>, and working
  directories in which the output directory exists and holds a directory under the name
  of a screenshot.
\<close>

definition blocked_disk :: node where
  "blocked_disk = Dir [''jules-scratch'' \<mapsto> File ''notes'']"

definition shot_dir_disk :: "string \<Rightarrow> node" where
  "shot_dir_disk name =
     Dir [''jules-scratch'' \<mapsto> Dir [''verification'' \<mapsto> Dir [name \<mapsto> Dir Map.empty]]]"

text \<open>
  A world whose only page answers the title query with an error while a service worker of
  the extension is running, and a world in which the text \<^verbatim>\<open>Theme\<close> never becomes visible.
\<close>

definition title_error_world :: world where
  "title_error_world =
     example_world
       [\<lparr>url = ''chrome-extension://abc/popup.html'', title = Inl (DriverError ''Target closed'')\<rparr>]
       [\<lparr>url = ''chrome-extension://abc/background.js''\<rparr>]
       (\<lambda>a. None)"

definition timeout_world :: world where
  "timeout_world =
     example_world [popup_page ''abc''] []
       (\<lambda>a. if a = ExpectVisible ''Theme'' 10000
            then Some (DriverError ''Locator expected to be visible'') else None)"

section \<open>Facts about the string operations\<close>

lemma py_split_nonempty: "py_split sep s \<noteq> []"
  by (induction s) (auto split: list.splits)

lemma py_split_no_sep: "sep \<notin> set i \<Longrightarrow> py_split sep i = [i]"
  by (induction i) auto

lemma py_split_append:
  "sep \<notin> set i \<Longrightarrow> py_split sep (i @ sep # rest) = i # py_split sep rest"
  by (induction i) auto

lemma startswith_prefix: "startswith s p = prefix p s"
  by (induction s p rule: startswith.induct) auto

lemma contains_sublist: "contains sub s = sublist sub s"
  by (induction s) (auto simp: startswith_prefix sublist_Cons_right)

lemma py_split_scheme:
  "py_split CHR ''/'' (''chrome-extension://'' @ r) =
     ''chrome-extension:'' # [] # py_split CHR ''/'' r"
  using py_split_append [of "CHR ''/''" "''chrome-extension:''" "CHR ''/'' # r"] by simp

lemma extract_id_scheme:
  "extract_id (''chrome-extension://'' @ r) = Inr (hd (py_split CHR ''/'' r))"
proof -
  obtain x xs where "py_split CHR ''/'' r = x # xs"
    using py_split_nonempty [of "CHR ''/''" r] by (cases "py_split CHR ''/'' r") auto
  then show ?thesis
    unfolding extract_id_def py_index_def py_split_scheme by simp
qed

lemma extract_id_startswith:
  assumes "startswith u ''chrome-extension://''"
  shows "\<exists>i. extract_id u = Inr i"
proof -
  from assms obtain r where "u = ''chrome-extension://'' @ r"
    by (auto simp: startswith_prefix prefix_def)
  then show ?thesis by (simp only: extract_id_scheme) blast
qed

lemma scan_pages_first: "scan_pages ps = first_page_id ps"
proof (induction ps)
  case Nil
  show ?case by (simp add: first_page_id_def)
next
  case (Cons p ps)
  show ?case
  proof (cases "page_matches p")
    case True
    then obtain i where "extract_id (url p) = Inr i"
      using extract_id_startswith unfolding page_matches_def by blast
    with True show ?thesis
      by (simp add: first_page_id_def page_matches_def)
  next
    case False
    then have "scan_pages (p # ps) = scan_pages ps"
      by (auto simp: page_matches_def split: sum.splits)
    with False Cons show ?thesis
      by (simp add: first_page_id_def)
  qed
qed

lemma scan_workers_first:
  "scan_workers eid ts =
     (case find worker_matches ts of
        None \<Rightarrow> Inr eid
      | Some t \<Rightarrow> (case extract_id (url t) of Inl e \<Rightarrow> Inl e | Inr i \<Rightarrow> Inr (Some i)))"
  by (induction ts) (simp_all add: worker_matches_def)

section \<open>Facts about the file system\<close>

lemma path_of_verification:
  "path_of ''jules-scratch/verification'' = [''jules-scratch'', ''verification'']"
  by (simp add: path_of_def)

lemma lookup_butlast: "lookup d p \<noteq> None \<Longrightarrow> lookup d (butlast p) \<noteq> None"
  by (induction d p rule: lookup.induct) (auto split: option.splits)

lemma mkdir_exists: "lookup d p \<noteq> None \<Longrightarrow> p \<noteq> [] \<Longrightarrow> mkdir d p = Inl FileExistsError"
  by (induction d p rule: mkdir.induct) (auto split: option.splits)


lemma makedirs_present:
  assumes "isdir d p" and "p \<noteq> []"
  shows "makedirs d p True = (d, None)"
proof -
  from assms have l: "lookup d p \<noteq> None" by (auto simp: isdir_def split: option.splits)
  then obtain y where "lookup d (butlast p) = Some y" using lookup_butlast by blast
  moreover have "mkdir d p = Inl FileExistsError" using l assms(2) by (rule mkdir_exists)
  ultimately show ?thesis using assms(1) by (subst makedirs.simps) simp
qed



lemma write_file_lookup: "write_file d p b = Inr d' \<Longrightarrow> lookup d' p = Some (File b)"
  by (induction d p b arbitrary: d' rule: write_file.induct)
     (auto split: option.splits sum.splits node.splits)

lemma write_file_other:
  "write_file d p b = Inr d' \<Longrightarrow> \<not> prefix p q \<Longrightarrow> \<not> prefix q p \<Longrightarrow> lookup d' q = lookup d q"
proof (induction d p b arbitrary: d' q rule: write_file.induct)
  case (1 d b)
  then show ?case by simp
next
  case (2 b' c cs b)
  then show ?case by simp
next
  case (3 entries c b)
  then show ?case by (cases q) (auto split: option.splits node.splits)
next
  case (4 entries c c' cs b)
  then show ?case by (cases q) (auto split: option.splits sum.splits)
qed

section \<open>Facts about runs\<close>

lemma run_steps_prefix: "prefix (trace (run_steps w as r)) (trace r @ as)"
proof (induction as arbitrary: r)
  case Nil
  show ?case by simp
next
  case (Cons a as)
  show ?case
  proof (cases "perform w a (disk r)")
    case (Pair d x)
    show ?thesis
    proof (cases x)
      case None
      with Pair Cons [of "r\<lparr>trace := trace r @ [a], disk := d\<rparr>"] show ?thesis by simp
    next
      case (Some e)
      with Pair show ?thesis by simp
    qed
  qed
qed

lemma run_steps_extends: "prefix (trace r) (trace (run_steps w as r))"
proof (induction as arbitrary: r)
  case Nil
  show ?case by simp
next
  case (Cons a as)
  show ?case
  proof (cases "perform w a (disk r)")
    case (Pair d x)
    show ?thesis
    proof (cases x)
      case None
      have "prefix (trace r) (trace r @ [a])" by simp
      also have "prefix (trace r @ [a]) (trace (run_steps w as (r\<lparr>trace := trace r @ [a], disk := d\<rparr>)))"
        using Cons [of "r\<lparr>trace := trace r @ [a], disk := d\<rparr>"] by simp
      finally show ?thesis using Pair None by simp
    next
      case (Some e)
      with Pair show ?thesis by simp
    qed
  qed
qed

lemma run_steps_completed:
  "raised r = None \<Longrightarrow> raised (run_steps w as r) = None \<Longrightarrow>
   trace (run_steps w as r) = trace r @ as"
proof (induction as arbitrary: r)
  case Nil
  show ?case by simp
next
  case (Cons a as)
  obtain d x where p: "perform w a (disk r) = (d, x)" by (cases "perform w a (disk r)")
  show ?case
  proof (cases x)
    case None
    with p Cons.prems Cons.IH [of "r\<lparr>trace := trace r @ [a], disk := d\<rparr>"] show ?thesis by simp
  next
    case (Some e)
    with p Cons.prems show ?thesis by simp
  qed
qed

lemma run_steps_abort:
  "raised r = None \<Longrightarrow> \<forall>b\<in>set (trace r). raises w b = None \<Longrightarrow>
   a \<in> set (trace (run_steps w as r)) \<Longrightarrow> raises w a = Some e \<Longrightarrow>
   raised (run_steps w as r) = Some e \<and> last (trace (run_steps w as r)) = a"
proof (induction as arbitrary: r)
  case Nil
  then show ?case by auto
next
  case (Cons b bs)
  obtain d x where p: "perform w b (disk r) = (d, x)" by (cases "perform w b (disk r)")
  show ?case
  proof (cases "raises w b")
    case (Some e')
    then have "run_steps w (b # bs) r = r\<lparr>trace := trace r @ [b], disk := disk r, raised := Some e'\<rparr>"
      by (simp add: perform_def)
    with Cons.prems Some show ?thesis by auto
  next
    case None
    show ?thesis
    proof (cases x)
      case N: None
      let ?r = "r\<lparr>trace := trace r @ [b], disk := d\<rparr>"
      have "raised ?r = None" using Cons.prems by simp
      moreover have "\<forall>c\<in>set (trace ?r). raises w c = None" using Cons.prems None by simp
      moreover have "a \<in> set (trace (run_steps w bs ?r))" using Cons.prems p N by simp
      ultimately show ?thesis using Cons.IH [of ?r] Cons.prems p N by simp
    next
      case S: (Some e')
      with p have "trace (run_steps w (b # bs) r) = trace r @ [b]" by simp
      with Cons.prems None show ?thesis by auto
    qed
  qed
qed


lemma discover_nonempty: "discover ps ts = Inr i \<Longrightarrow> i \<noteq> []"
  by (auto simp: discover_def Let_def split: if_splits sum.splits option.splits)

lemma distinct_script: "distinct (setup_steps w @ main_steps i)"
  by (simp add: setup_steps_def main_steps_def Let_def)

lemma scan_pages_skip: "\<forall>q\<in>set pre. \<not> page_matches q \<Longrightarrow> scan_pages (pre @ ps) = scan_pages ps"
proof (induction pre)
  case Nil
  show ?case by simp
next
  case (Cons q pre)
  then have "\<not> page_matches q" by simp
  then have "scan_pages (q # pre @ ps) = scan_pages (pre @ ps)"
    by (auto simp: page_matches_def split: sum.splits)
  with Cons show ?case by simp
qed

lemma test_after_setup:
  assumes "\<forall>a\<in>set (setup_steps w). raises w a = None"
  shows "test_theme_switching w d =
     (case discover (pages w) (service_workers w) of
        Inl e \<Rightarrow> \<lparr>trace = setup_steps w, disk = d, raised = Some e\<rparr>
      | Inr i \<Rightarrow> run_steps w (main_steps i) \<lparr>trace = setup_steps w, disk = d, raised = None\<rparr>)"
  using assms
  by (simp add: test_theme_switching_def setup_steps_def perform_def Let_def split: sum.splits)

lemma test_trace_prefix:
  "prefix (trace (test_theme_switching w d))
     (setup_steps w @
        (case discover (pages w) (service_workers w) of Inl e \<Rightarrow> [] | Inr i \<Rightarrow> main_steps i))"
proof -
  let ?init = "\<lparr>trace = [], disk = d, raised = None\<rparr>"
  let ?s = "run_steps w (setup_steps w) ?init"
  let ?m = "case discover (pages w) (service_workers w) of Inl e \<Rightarrow> [] | Inr i \<Rightarrow> main_steps i"
  have p: "prefix (trace ?s) (setup_steps w)"
    using run_steps_prefix [of w "setup_steps w" ?init] by simp
  show ?thesis
  proof (cases "raised ?s")
    case (Some e)
    then have "test_theme_switching w d = ?s"
      by (simp add: test_theme_switching_def Let_def)
    with p show ?thesis by simp
  next
    case None
    then have t: "trace ?s = setup_steps w"
      using run_steps_completed [of ?init w "setup_steps w"] by simp
    show ?thesis
    proof (cases "discover (pages w) (service_workers w)")
      case (Inl e)
      with None t show ?thesis by (simp add: test_theme_switching_def Let_def)
    next
      case (Inr i)
      with None have "test_theme_switching w d = run_steps w (main_steps i) ?s"
        by (simp add: test_theme_switching_def Let_def)
      with Inr t run_steps_prefix [of w "main_steps i" ?s] show ?thesis by simp
    qed
  qed
qed

lemma test_abort:
  assumes "a \<in> set (trace (test_theme_switching w d))" and "raises w a = Some e"
  shows "raised (test_theme_switching w d) = Some e \<and> last (trace (test_theme_switching w d)) = a"
proof -
  let ?init = "\<lparr>trace = [], disk = d, raised = None\<rparr>"
  let ?s = "run_steps w (setup_steps w) ?init"
  show ?thesis
  proof (cases "raised ?s")
    case (Some x)
    then have eq: "test_theme_switching w d = ?s"
      by (simp add: test_theme_switching_def Let_def)
    with assms run_steps_abort [of ?init w a "setup_steps w" e] show ?thesis by simp
  next
    case None
    then have t: "trace ?s = setup_steps w"
      using run_steps_completed [of ?init w "setup_steps w"] by simp
    have ok: "\<forall>b\<in>set (trace ?s). raises w b = None"
    proof (rule ccontr)
      assume "\<not> (\<forall>b\<in>set (trace ?s). raises w b = None)"
      then obtain b x where "b \<in> set (trace ?s)" "raises w b = Some x" by auto
      with run_steps_abort [of ?init w b "setup_steps w" x] None show False by simp
    qed
    show ?thesis
    proof (cases "discover (pages w) (service_workers w)")
      case (Inl x)
      with None have "trace (test_theme_switching w d) = trace ?s"
        by (simp add: test_theme_switching_def Let_def)
      with assms ok show ?thesis by auto
    next
      case (Inr i)
      with None have "test_theme_switching w d = run_steps w (main_steps i) ?s"
        by (simp add: test_theme_switching_def Let_def)
      with assms run_steps_abort [OF None ok, of a "main_steps i" e] show ?thesis by simp
    qed
  qed
qed

lemma test_trace_distinct: "distinct (trace (test_theme_switching w d))"
proof -
  let ?script = "setup_steps w @
        (case discover (pages w) (service_workers w) of Inl e \<Rightarrow> [] | Inr i \<Rightarrow> main_steps i)"
  have "distinct ?script"
    using distinct_script [of w] by (auto split: sum.splits)
  moreover from test_trace_prefix [of w d]
  obtain zs where "?script = trace (test_theme_switching w d) @ zs"
    unfolding prefix_def by blast
  ultimately have "distinct (trace (test_theme_switching w d) @ zs)" by metis
  then show ?thesis by simp
qed

lemma path_of_shots:
  "path_of ''jules-scratch/verification/01_default_theme.png'' =
     [''jules-scratch'', ''verification'', ''01_default_theme.png'']"
  "path_of ''jules-scratch/verification/02_light_theme.png'' =
     [''jules-scratch'', ''verification'', ''02_light_theme.png'']"
  "path_of ''jules-scratch/verification/03_dark_theme.png'' =
     [''jules-scratch'', ''verification'', ''03_dark_theme.png'']"
  by (simp_all add: path_of_def)

lemma run_steps_success:
  "raised r = None \<Longrightarrow>
   raised (run_steps w as r) = None \<longleftrightarrow>
     (\<forall>a\<in>set as. raises w a = None) \<and> snd (effects w as (disk r)) = None"
proof (induction as arbitrary: r)
  case Nil
  then show ?case by simp
next
  case (Cons a as)
  show ?case
  proof (cases "raises w a")
    case (Some e)
    then show ?thesis by (simp add: perform_def)
  next
    case None
    obtain d' x where e: "effect w a (disk r) = (d', x)" by (cases "effect w a (disk r)")
    show ?thesis
    proof (cases x)
      case N: None
      with None e Cons.prems Cons.IH [of "r\<lparr>trace := trace r @ [a], disk := d'\<rparr>"]
      show ?thesis by (simp add: perform_def)
    next
      case (Some y)
      with None e show ?thesis by (simp add: perform_def)
    qed
  qed
qed

lemma run_steps_success_disk:
  "raised r = None \<Longrightarrow> raised (run_steps w as r) = None \<Longrightarrow>
   disk (run_steps w as r) = fst (effects w as (disk r))"
proof (induction as arbitrary: r)
  case Nil
  then show ?case by simp
next
  case (Cons a as)
  obtain d' x where p: "perform w a (disk r) = (d', x)" by (cases "perform w a (disk r)")
  with Cons.prems have x: "x = None" by (cases x) auto
  with p have "raises w a = None" "effect w a (disk r) = (d', None)"
    by (auto simp: perform_def split: option.splits)
  with p x Cons.prems Cons.IH [of "r\<lparr>trace := trace r @ [a], disk := d'\<rparr>"]
  show ?case by simp
qed

lemma effects_main_steps:
  assumes "snd (effects w (main_steps i) d) = None"
  obtains d1 d2 d3 d4 where
    "makedirs d [''jules-scratch'', ''verification''] True = (d1, None)"
    "write_file d1 [''jules-scratch'', ''verification'', ''01_default_theme.png'']
       (capture w ''jules-scratch/verification/01_default_theme.png'') = Inr d2"
    "write_file d2 [''jules-scratch'', ''verification'', ''02_light_theme.png'']
       (capture w ''jules-scratch/verification/02_light_theme.png'') = Inr d3"
    "write_file d3 [''jules-scratch'', ''verification'', ''03_dark_theme.png'']
       (capture w ''jules-scratch/verification/03_dark_theme.png'') = Inr d4"
    "fst (effects w (main_steps i) d) = d4"
proof -
  let ?p1 = "[''jules-scratch'', ''verification'', ''01_default_theme.png'']"
  let ?p2 = "[''jules-scratch'', ''verification'', ''02_light_theme.png'']"
  let ?p3 = "[''jules-scratch'', ''verification'', ''03_dark_theme.png'']"
  let ?c1 = "capture w ''jules-scratch/verification/01_default_theme.png''"
  let ?c2 = "capture w ''jules-scratch/verification/02_light_theme.png''"
  let ?c3 = "capture w ''jules-scratch/verification/03_dark_theme.png''"
  note defs = main_steps_def path_of_shots path_of_verification
  obtain d1 x where m: "makedirs d [''jules-scratch'', ''verification''] True = (d1, x)"
    by (cases "makedirs d [''jules-scratch'', ''verification''] True")
  have x: "x = None"
  proof (cases x)
    case (Some e)
    with m assms show ?thesis by (simp add: defs)
  qed simp
  obtain d2 where w1: "write_file d1 ?p1 ?c1 = Inr d2"
  proof (cases "write_file d1 ?p1 ?c1")
    case (Inl e)
    with m x assms show ?thesis by (simp add: defs)
  qed
  obtain d3 where w2: "write_file d2 ?p2 ?c2 = Inr d3"
  proof (cases "write_file d2 ?p2 ?c2")
    case (Inl e)
    with m x w1 assms show ?thesis by (simp add: defs)
  qed
  obtain d4 where w3: "write_file d3 ?p3 ?c3 = Inr d4"
  proof (cases "write_file d3 ?p3 ?c3")
    case (Inl e)
    with m x w1 w2 assms show ?thesis by (simp add: defs)
  qed
  have "fst (effects w (main_steps i) d) = d4"
    using m x w1 w2 w3 by (simp add: defs)
  with m x w1 w2 w3 that show ?thesis by blast
qed

lemma test_completed:
  assumes "raised (test_theme_switching w d) = None"
  obtains i where
    "\<forall>a\<in>set (setup_steps w). raises w a = None"
    "discover (pages w) (service_workers w) = Inr i"
    "\<forall>a\<in>set (main_steps i). raises w a = None"
    "snd (effects w (main_steps i) d) = None"
    "trace (test_theme_switching w d) = setup_steps w @ main_steps i"
    "disk (test_theme_switching w d) = fst (effects w (main_steps i) d)"
proof -
  let ?init = "\<lparr>trace = [], disk = d, raised = None\<rparr>"
  let ?s = "run_steps w (setup_steps w) ?init"
  have s: "raised ?s = None"
  proof (rule ccontr)
    assume "raised ?s \<noteq> None"
    then have "test_theme_switching w d = ?s" by (simp add: test_theme_switching_def Let_def)
    with assms \<open>raised ?s \<noteq> None\<close> show False by simp
  qed
  then have ok: "\<forall>a\<in>set (setup_steps w). raises w a = None"
    using run_steps_success [of ?init w "setup_steps w"] by simp
  let ?t = "\<lparr>trace = setup_steps w, disk = d, raised = None\<rparr>"
  from assms test_after_setup [OF ok, of d]
  obtain i where i: "discover (pages w) (service_workers w) = Inr i"
    and t: "test_theme_switching w d = run_steps w (main_steps i) ?t"
    by (cases "discover (pages w) (service_workers w)") auto
  from assms t have r: "raised (run_steps w (main_steps i) ?t) = None" by simp
  then have 3: "\<forall>a\<in>set (main_steps i). raises w a = None"
    and 4: "snd (effects w (main_steps i) d) = None"
    using run_steps_success [of ?t w "main_steps i"] by simp_all
  have 5: "trace (test_theme_switching w d) = setup_steps w @ main_steps i"
    using run_steps_completed [of ?t w "main_steps i"] r t by simp
  have 6: "disk (test_theme_switching w d) = fst (effects w (main_steps i) d)"
    using run_steps_success_disk [of ?t w "main_steps i"] r t by simp
  from ok i 3 4 5 6 that show ?thesis by blast
qed

lemma makedirs_earlier_run:
  "makedirs earlier_run_disk [''jules-scratch'', ''verification''] True = (earlier_run_disk, None)"
  by (rule makedirs_present) (simp_all add: isdir_def earlier_run_disk_def)


lemma makedirs_without_exist_ok:
  assumes "isdir d p" and "p \<noteq> []"
  shows "makedirs d p False = (d, Some FileExistsError)"
proof -
  from assms have l: "lookup d p \<noteq> None" by (auto simp: isdir_def split: option.splits)
  then obtain y where "lookup d (butlast p) = Some y" using lookup_butlast by blast
  moreover have "mkdir d p = Inl FileExistsError" using l assms(2) by (rule mkdir_exists)
  ultimately show ?thesis by (subst makedirs.simps) simp
qed


lemma quiet_run_completes:
  assumes "\<forall>a. raises w a = None" and "discover (pages w) (service_workers w) = Inr i"
  shows "raised (test_theme_switching w earlier_run_disk) = None"
proof -
  let ?t = "\<lparr>trace = setup_steps w, disk = earlier_run_disk, raised = None\<rparr>"
  have "snd (effects w (main_steps i) earlier_run_disk) = None"
    by (simp add: main_steps_def path_of_verification path_of_shots makedirs_earlier_run)
       (simp add: earlier_run_disk_def)
  then have "raised (run_steps w (main_steps i) ?t) = None"
    using run_steps_success [of ?t w "main_steps i"] assms(1) by simp
  then show ?thesis
    using test_after_setup [of w earlier_run_disk] assms by simp
qed

lemma run_steps_effects_error:
  "raised r = None \<Longrightarrow> \<forall>a\<in>set as. raises w a = None \<Longrightarrow>
   snd (effects w as (disk r)) = Some e \<Longrightarrow> raised (run_steps w as r) = Some e"
proof (induction as arbitrary: r)
  case Nil
  then show ?case by simp
next
  case (Cons a as)
  obtain d' x where f: "effect w a (disk r) = (d', x)" by (cases "effect w a (disk r)")
  show ?case
  proof (cases x)
    case None
    with f Cons.prems Cons.IH [of "r\<lparr>trace := trace r @ [a], disk := d'\<rparr>"]
    show ?thesis by (simp add: perform_def)
  next
    case (Some y)
    with f Cons.prems show ?thesis by (simp add: perform_def)
  qed
qed

lemma timeout_run:
  "test_theme_switching timeout_world d =
     \<lparr>trace = setup_steps timeout_world @
        [Print ''Extension ID: abc'',
         Print ''Navigating to: chrome-extension://abc/options.html'',
         NewPage,
         Goto ''chrome-extension://abc/options.html'',
         ExpectVisible ''Theme'' 10000],
      disk = d,
      raised = Some (DriverError ''Locator expected to be visible'')\<rparr>"
proof -
  have 1: "\<forall>a\<in>set (setup_steps timeout_world). raises timeout_world a = None"
    by (simp add: timeout_world_def example_world_def setup_steps_def Let_def)
  have 2: "discover (pages timeout_world) (service_workers timeout_world) = Inr ''abc''"
    by (simp add: timeout_world_def example_world_def popup_page_def discover_def falsy_def
        extract_id_def py_index_def)
  have 3: "raises timeout_world = (\<lambda>a. if a = ExpectVisible ''Theme'' 10000
            then Some (DriverError ''Locator expected to be visible'') else None)"
    by (simp add: timeout_world_def example_world_def)
  show ?thesis
    using test_after_setup [OF 1, of d] 2
    by (simp add: main_steps_def options_page_url_def perform_def 3)
qed

lemma makedirs_blocked:
  "makedirs (Dir [''jules-scratch'' \<mapsto> File b]) [''jules-scratch'', ''verification''] True =
     (Dir [''jules-scratch'' \<mapsto> File b], Some NotADirectoryError)"
  by (subst makedirs.simps) (simp add: isdir_def)




lemma write_file_isdir:
  "isdir d p \<Longrightarrow> p \<noteq> [] \<Longrightarrow> write_file d p b = Inl IsADirectoryError"
proof (induction d p b rule: write_file.induct)
  case (1 d b)
  then show ?case by simp
next
  case (2 b' c cs b)
  then show ?case by (simp add: isdir_def)
next
  case (3 entries c b)
  then show ?case by (auto simp: isdir_def split: option.splits node.splits)
next
  case (4 entries c c' cs b)
  then show ?case by (auto simp: isdir_def split: option.splits)
qed

lemma makedirs_shot_dir_disk:
  "makedirs (shot_dir_disk name) [''jules-scratch'', ''verification''] True =
     (shot_dir_disk name, None)"
  by (rule makedirs_present) (simp_all add: isdir_def shot_dir_disk_def)

section \<open>Identifier discovery: the claims\<close>

text \<open>
  Claim C2. Discovery tries its two strategies in a fixed order, for all pages and service
  workers: the open pages are scanned in list order and the first page whose URL starts
  with \<^verbatim>\<open>chrome-extension://\<close> and whose title is exactly \<^verbatim>\<open>Password Memo\<close> is taken; the
  service workers are consulted only when that scan gave no non-empty identifier, and
  then the first one whose URL contains \<^verbatim>\<open>background\<close> is taken. \<open>discover\<close>, translated
  from the source, equals \<open>discover_ordered\<close>, which says this with \<open>find\<close>.
\<close>

theorem discover_refines_ordered: "discover ps ts = discover_ordered ps ts"
  unfolding discover_def discover_ordered_def Let_def scan_pages_first scan_workers_first falsy_def
  by (simp split: option.splits list.splits sum.splits)

theorem discover_refines_ordered_witness:
  "discover
     [\<lparr>url = ''https://example.org/'', title = Inr ''Password Memo''\<rparr>,
      \<lparr>url = ''chrome-extension://abc/popup.html'', title = Inr ''Password Memo''\<rparr>,
      \<lparr>url = ''chrome-extension://xyz/popup.html'', title = Inr ''Password Memo''\<rparr>]
     [\<lparr>url = ''chrome-extension://uvw/background.js''\<rparr>] = Inr ''abc''"
  using discover_refines_ordered
    [of "[\<lparr>url = ''https://example.org/'', title = Inr ''Password Memo''\<rparr>,
          \<lparr>url = ''chrome-extension://abc/popup.html'', title = Inr ''Password Memo''\<rparr>,
          \<lparr>url = ''chrome-extension://xyz/popup.html'', title = Inr ''Password Memo''\<rparr>]"
        "[\<lparr>url = ''chrome-extension://uvw/background.js''\<rparr>]"]
  by (simp add: discover_ordered_def first_page_id_def page_matches_def extract_id_def
      py_index_def)

text \<open>
  Claim C3. The identifier extracted from a matching context is the element at index 2 of
  that context's URL split on \<^verbatim>\<open>/\<close>: for the first matching page (where index 2 always
  exists), for the first matching service worker whenever the extraction returns, and
  for whatever discovery returns. For a URL \<^verbatim>\<open>chrome-extension://<id>/...\<close> whose \<^verbatim>\<open><id>\<close> has
  no slash, that element is \<^verbatim>\<open><id>\<close>.
\<close>

theorem extracted_id_is_second_component:
  "(find page_matches ps = Some p \<longrightarrow>
      2 < length (py_split CHR ''/'' (url p)) \<and>
      scan_pages ps = Some (py_split CHR ''/'' (url p) ! 2))
   \<and> (find worker_matches ts = Some t \<and> scan_workers eid ts = Inr v \<longrightarrow>
      2 < length (py_split CHR ''/'' (url t)) \<and>
      v = Some (py_split CHR ''/'' (url t) ! 2))
   \<and> (discover ps ts = Inr i \<longrightarrow>
      (\<exists>q. find page_matches ps = Some q \<and> py_split CHR ''/'' (url q) ! 2 = i) \<or>
      (\<exists>u. find worker_matches ts = Some u \<and> py_split CHR ''/'' (url u) ! 2 = i))
   \<and> (CHR ''/'' \<notin> set x \<longrightarrow>
      extract_id (''chrome-extension://'' @ x @ ''/'' @ rest) = Inr x)"
proof (intro conjI impI)
  assume f: "find page_matches ps = Some p"
  then have "page_matches p" by (auto simp: find_Some_iff)
  then obtain j where j: "extract_id (url p) = Inr j"
    using extract_id_startswith unfolding page_matches_def by blast
  then show "2 < length (py_split CHR ''/'' (url p))"
    by (simp add: extract_id_def py_index_def split: if_splits)
  from j f show "scan_pages ps = Some (py_split CHR ''/'' (url p) ! 2)"
    by (simp add: scan_pages_first first_page_id_def)
       (simp add: extract_id_def py_index_def split: if_splits)
next
  assume a: "find worker_matches ts = Some t \<and> scan_workers eid ts = Inr v"
  then have e: "(case extract_id (url t) of Inl e \<Rightarrow> Inl e | Inr i \<Rightarrow> Inr (Some i)) = Inr v"
    by (clarsimp simp: scan_workers_first)
  then show "2 < length (py_split CHR ''/'' (url t))"
    by (simp add: extract_id_def py_index_def split: if_splits sum.splits)
  from e show "v = Some (py_split CHR ''/'' (url t) ! 2)"
    by (auto simp: extract_id_def py_index_def split: if_splits sum.splits)
next
  assume "discover ps ts = Inr i"
  then show "(\<exists>q. find page_matches ps = Some q \<and> py_split CHR ''/'' (url q) ! 2 = i) \<or>
      (\<exists>u. find worker_matches ts = Some u \<and> py_split CHR ''/'' (url u) ! 2 = i)"
    unfolding discover_def Let_def scan_pages_first scan_workers_first first_page_id_def falsy_def
    by (auto simp: extract_id_def py_index_def split: option.splits sum.splits if_splits)
next
  assume "CHR ''/'' \<notin> set x"
  then have "py_split CHR ''/'' (x @ CHR ''/'' # rest) = x # py_split CHR ''/'' rest"
    by (rule py_split_append)
  then show "extract_id (''chrome-extension://'' @ x @ ''/'' @ rest) = Inr x"
    using extract_id_scheme [of "x @ ''/'' @ rest"] by simp
qed

theorem extracted_id_is_second_component_witness:
  "find page_matches [popup_page ''abc''] = Some (popup_page ''abc'')
   \<and> scan_pages [popup_page ''abc''] = Some ''abc''
   \<and> find worker_matches [\<lparr>url = ''chrome-extension://xyz/background.js''\<rparr>]
       = Some \<lparr>url = ''chrome-extension://xyz/background.js''\<rparr>
   \<and> scan_workers None [\<lparr>url = ''chrome-extension://xyz/background.js''\<rparr>] = Inr (Some ''xyz'')
   \<and> discover [popup_page ''abc''] [] = Inr ''abc''
   \<and> CHR ''/'' \<notin> set ''abc''
   \<and> extract_id ''chrome-extension://abc/options.html'' = Inr ''abc''"
  using extracted_id_is_second_component
    [of "[popup_page ''abc'']" "popup_page ''abc''"
        "[\<lparr>url = ''chrome-extension://xyz/background.js''\<rparr>]"
        "\<lparr>url = ''chrome-extension://xyz/background.js''\<rparr>" None "Some ''xyz''"
        "''abc''" "''abc''" "''options.html''"]
  by (simp add: popup_page_def page_matches_def worker_matches_def extract_id_def py_index_def
      discover_def falsy_def)

text \<open>
  Claim C9. The service-worker fallback subscripts position 2 of the split URL with no
  length guard: when the page scan gave nothing and the first service worker whose URL
  contains \<^verbatim>\<open>background\<close> has fewer than three pieces (the URL \<^verbatim>\<open>background\<close> is one),
  discovery ends in \<^verbatim>\<open>IndexError\<close>, and so does the run, instead of the documented
  \<^verbatim>\<open>Could not find extension ID\<close>.
\<close>

theorem worker_fallback_index_error:
  assumes "\<forall>a\<in>set (setup_steps w). raises w a = None"
    and "falsy (scan_pages (pages w))"
    and "find worker_matches (service_workers w) = Some t"
    and "length (py_split CHR ''/'' (url t)) < 3"
  shows "discover (pages w) (service_workers w) = Inl IndexError
       \<and> raised (test_theme_switching w d) = Some IndexError
       \<and> trace (test_theme_switching w d) = setup_steps w"
proof -
  from assms(4) have "extract_id (url t) = Inl IndexError"
    by (simp add: extract_id_def py_index_def)
  with assms(2,3) have "discover (pages w) (service_workers w) = Inl IndexError"
    by (simp add: discover_def Let_def scan_workers_first)
  then show ?thesis using test_after_setup [OF assms(1)] by simp
qed

theorem worker_fallback_index_error_witness:
  "worker_matches \<lparr>url = ''background''\<rparr>
   \<and> py_split CHR ''/'' ''background'' = [''background'']
   \<and> discover [] [\<lparr>url = ''background''\<rparr>] = Inl IndexError
   \<and> raised (test_theme_switching (example_world [] [\<lparr>url = ''background''\<rparr>] (\<lambda>a. None))
        (Dir Map.empty)) = Some IndexError"
proof -
  let ?w = "example_world [] [\<lparr>url = ''background''\<rparr>] (\<lambda>a. None)"
  have 1: "\<forall>a\<in>set (setup_steps ?w). raises ?w a = None"
    by (simp add: example_world_def)
  have 2: "falsy (scan_pages (pages ?w))"
    by (simp add: example_world_def falsy_def)
  have 3: "find worker_matches (service_workers ?w) = Some \<lparr>url = ''background''\<rparr>"
    by (simp add: example_world_def worker_matches_def)
  have 4: "length (py_split CHR ''/'' (url \<lparr>url = ''background''\<rparr>)) < 3"
    by simp
  from worker_fallback_index_error [OF 1 2 3 4, of "Dir Map.empty"]
  show ?thesis by (simp add: example_world_def worker_matches_def)
qed

text \<open>
  Claim C10. The page scan stops at the first page whose URL starts with
  \<^verbatim>\<open>chrome-extension://\<close> and whose title is \<^verbatim>\<open>Password Memo\<close> even when the identifier taken
  from it is empty (the URL \<^verbatim>\<open>chrome-extension://\<close> gives the empty string): whatever
  pages follow, the scan yields the empty string, which the falsy check treats as not
  found, and discovery is decided by the service-worker fallback alone; the empty
  identifier is never returned.
\<close>

theorem empty_id_match_stops_scan:
  assumes "\<forall>q\<in>set pre. \<not> page_matches q"
    and "page_matches p"
    and "extract_id (url p) = Inr []"
  shows "scan_pages (pre @ p # rest) = Some []
       \<and> falsy (scan_pages (pre @ p # rest))
       \<and> discover (pre @ p # rest) ts =
           (case find worker_matches ts of
              None \<Rightarrow> Inl (Exception ''Could not find extension ID'')
            | Some t \<Rightarrow>
                (case extract_id (url t) of
                   Inl e \<Rightarrow> Inl e
                 | Inr [] \<Rightarrow> Inl (Exception ''Could not find extension ID'')
                 | Inr (c # cs) \<Rightarrow> Inr (c # cs)))
       \<and> discover (pre @ p # rest) ts = discover [] ts
       \<and> discover (pre @ p # rest) ts \<noteq> Inr []"
proof -
  have "scan_pages (p # rest) = Some []"
    using assms(2,3) by (simp add: page_matches_def)
  then have s: "scan_pages (pre @ p # rest) = Some []"
    using scan_pages_skip [OF assms(1)] by simp
  then have "discover (pre @ p # rest) ts = discover [] ts"
    by (simp add: discover_def Let_def falsy_def scan_workers_first
        split: option.splits sum.splits)
  moreover have "discover [] ts =
           (case find worker_matches ts of
              None \<Rightarrow> Inl (Exception ''Could not find extension ID'')
            | Some t \<Rightarrow>
                (case extract_id (url t) of
                   Inl e \<Rightarrow> Inl e
                 | Inr [] \<Rightarrow> Inl (Exception ''Could not find extension ID'')
                 | Inr (c # cs) \<Rightarrow> Inr (c # cs)))"
    by (simp add: discover_def falsy_def scan_workers_first
        split: option.splits sum.splits list.splits)
  moreover have "discover (pre @ p # rest) ts \<noteq> Inr []"
    using discover_nonempty [of "pre @ p # rest" ts "[]"] by auto
  ultimately show ?thesis using s by (simp add: falsy_def)
qed

theorem empty_id_match_stops_scan_witness:
  "page_matches \<lparr>url = ''chrome-extension://'', title = Inr ''Password Memo''\<rparr>
   \<and> extract_id ''chrome-extension://'' = Inr []
   \<and> page_matches (popup_page ''abc'')
   \<and> scan_pages [\<lparr>url = ''chrome-extension://'', title = Inr ''Password Memo''\<rparr>,
                 popup_page ''abc''] = Some []
   \<and> discover [\<lparr>url = ''chrome-extension://'', title = Inr ''Password Memo''\<rparr>,
               popup_page ''abc''] [\<lparr>url = ''chrome-extension://xyz/background.js''\<rparr>]
       = Inr ''xyz''"
proof -
  let ?p = "\<lparr>url = ''chrome-extension://'', title = Inr ''Password Memo''\<rparr>"
  have 1: "\<forall>q\<in>set []. \<not> page_matches q" by simp
  have 2: "page_matches ?p" by (simp add: page_matches_def)
  have 3: "extract_id (url ?p) = Inr []" by (simp add: extract_id_def py_index_def)
  have 4: "discover [] [\<lparr>url = ''chrome-extension://xyz/background.js''\<rparr>] = Inr ''xyz''"
    by (simp add: discover_def falsy_def extract_id_def py_index_def)
  from empty_id_match_stops_scan [OF 1 2 3, of "[popup_page ''abc'']"
      "[\<lparr>url = ''chrome-extension://xyz/background.js''\<rparr>]"] 2 3 4
  show ?thesis
    by (simp add: page_matches_def popup_page_def worker_matches_def extract_id_def
        py_index_def falsy_def)
qed

section \<open>The run: the claims\<close>

text \<open>
  Claim C1. When the context was launched and the scan finds no page whose URL starts with
  \<^verbatim>\<open>chrome-extension://\<close> and whose title is \<^verbatim>\<open>Password Memo\<close> (or the page it finds gives an
  empty identifier), and no service worker has \<^verbatim>\<open>background\<close> in its URL, the run ends
  with the exception \<^verbatim>\<open>Could not find extension ID\<close>; only the launch and the sleep were
  executed, so no navigation, visibility wait, click or screenshot, and the file system
  is untouched.
\<close>

theorem not_found_aborts_before_navigation:
  assumes "\<forall>a\<in>set (setup_steps w). raises w a = None"
    and "find page_matches (pages w) = None \<or>
         (\<exists>p. find page_matches (pages w) = Some p \<and> extract_id (url p) = Inr [])"
    and "\<forall>t\<in>set (service_workers w). \<not> contains ''background'' (url t)"
  shows "raised (test_theme_switching w d) = Some (Exception ''Could not find extension ID'')
       \<and> trace (test_theme_switching w d) = setup_steps w
       \<and> disk (test_theme_switching w d) = d
       \<and> (\<forall>a\<in>set (trace (test_theme_switching w d)).
            (\<forall>u. a \<noteq> Goto u) \<and> (\<forall>x n. a \<noteq> ExpectVisible x n) \<and>
            (\<forall>x n. a \<noteq> Click x n) \<and> (\<forall>p. a \<noteq> Screenshot p))"
proof -
  from assms(3) have "find worker_matches (service_workers w) = None"
    by (simp add: find_None_iff worker_matches_def)
  with assms(2) have "discover (pages w) (service_workers w) =
      Inl (Exception ''Could not find extension ID'')"
    unfolding discover_def Let_def scan_pages_first scan_workers_first first_page_id_def falsy_def
    by auto
  then have "test_theme_switching w d =
      \<lparr>trace = setup_steps w, disk = d, raised = Some (Exception ''Could not find extension ID'')\<rparr>"
    using test_after_setup [OF assms(1)] by simp
  then show ?thesis by (auto simp: setup_steps_def Let_def)
qed

theorem not_found_aborts_before_navigation_witness:
  "raised (test_theme_switching
            (example_world [\<lparr>url = ''chrome-extension://'', title = Inr ''Password Memo''\<rparr>]
               [\<lparr>url = ''chrome-extension://abc/worker.js''\<rparr>] (\<lambda>a. None))
            (Dir Map.empty))
     = Some (Exception ''Could not find extension ID'')
   \<and> trace (test_theme_switching
            (example_world [\<lparr>url = ''chrome-extension://'', title = Inr ''Password Memo''\<rparr>]
               [\<lparr>url = ''chrome-extension://abc/worker.js''\<rparr>] (\<lambda>a. None))
            (Dir Map.empty))
     = [Launch ''/tmp/test-user-data-dir'' True
          [''--disable-extensions-except=/repo/password-memo-browser/dist'',
           ''--load-extension=/repo/password-memo-browser/dist''],
        Sleep 2]"
proof -
  let ?w = "example_world [\<lparr>url = ''chrome-extension://'', title = Inr ''Password Memo''\<rparr>]
               [\<lparr>url = ''chrome-extension://abc/worker.js''\<rparr>] (\<lambda>a. None)"
  have 1: "\<forall>a\<in>set (setup_steps ?w). raises ?w a = None"
    by (simp add: example_world_def)
  have 2: "find page_matches (pages ?w) = None \<or>
         (\<exists>p. find page_matches (pages ?w) = Some p \<and> extract_id (url p) = Inr [])"
    by (simp add: example_world_def page_matches_def extract_id_def py_index_def)
  have 3: "\<forall>t\<in>set (service_workers ?w). \<not> contains ''background'' (url t)"
    by (simp add: example_world_def)
  from not_found_aborts_before_navigation [OF 1 2 3, of "Dir Map.empty"]
  show ?thesis by (simp add: setup_steps_def example_world_def Let_def)
qed

text \<open>
  Claim C5. On the successful path the calls of the run are, in this order, the launch and
  the sleep, the two prints, the new page, the navigation, the visibility wait, the
  creation of the output directory, and then exactly: the screenshot to
  \<^verbatim>\<open>jules-scratch/verification/01_default_theme.png\<close>, the click on the button \<^verbatim>\<open>Light\<close>,
  the screenshot to \<^verbatim>\<open>02_light_theme.png\<close>, the click on the button \<^verbatim>\<open>Dark\<close>, the screenshot
  to \<^verbatim>\<open>03_dark_theme.png\<close>, and the close. The screenshots and clicks of the whole run are
  these five, and afterwards each of the three paths holds the image captured for it,
  whatever was there before.
\<close>

theorem successful_run_sequence:
  assumes "raised (test_theme_switching w d) = None"
  shows "\<exists>i. discover (pages w) (service_workers w) = Inr i
    \<and> trace (test_theme_switching w d) =
        setup_steps w @
        [Print (''Extension ID: '' @ i),
         Print (''Navigating to: chrome-extension://'' @ i @ ''/options.html''),
         NewPage,
         Goto (''chrome-extension://'' @ i @ ''/options.html''),
         ExpectVisible ''Theme'' 10000,
         Makedirs ''jules-scratch/verification'' True,
         Screenshot ''jules-scratch/verification/01_default_theme.png'',
         Click ''button'' ''Light'',
         Screenshot ''jules-scratch/verification/02_light_theme.png'',
         Click ''button'' ''Dark'',
         Screenshot ''jules-scratch/verification/03_dark_theme.png'',
         Close]
    \<and> filter (\<lambda>a. case a of Screenshot p \<Rightarrow> True | Click r n \<Rightarrow> True | _ \<Rightarrow> False)
          (trace (test_theme_switching w d)) =
        [Screenshot ''jules-scratch/verification/01_default_theme.png'',
         Click ''button'' ''Light'',
         Screenshot ''jules-scratch/verification/02_light_theme.png'',
         Click ''button'' ''Dark'',
         Screenshot ''jules-scratch/verification/03_dark_theme.png'']
    \<and> lookup (disk (test_theme_switching w d))
          (path_of ''jules-scratch/verification/01_default_theme.png'') =
        Some (File (capture w ''jules-scratch/verification/01_default_theme.png''))
    \<and> lookup (disk (test_theme_switching w d))
          (path_of ''jules-scratch/verification/02_light_theme.png'') =
        Some (File (capture w ''jules-scratch/verification/02_light_theme.png''))
    \<and> lookup (disk (test_theme_switching w d))
          (path_of ''jules-scratch/verification/03_dark_theme.png'') =
        Some (File (capture w ''jules-scratch/verification/03_dark_theme.png''))"
proof -
  let ?p1 = "[''jules-scratch'', ''verification'', ''01_default_theme.png'']"
  let ?p2 = "[''jules-scratch'', ''verification'', ''02_light_theme.png'']"
  let ?p3 = "[''jules-scratch'', ''verification'', ''03_dark_theme.png'']"
  from assms obtain i where i: "discover (pages w) (service_workers w) = Inr i"
    and e: "snd (effects w (main_steps i) d) = None"
    and t: "trace (test_theme_switching w d) = setup_steps w @ main_steps i"
    and k: "disk (test_theme_switching w d) = fst (effects w (main_steps i) d)"
    by (rule test_completed)
  from e obtain d1 d2 d3 d4 where
    w1: "write_file d1 ?p1 (capture w ''jules-scratch/verification/01_default_theme.png'') = Inr d2"
    and w2: "write_file d2 ?p2 (capture w ''jules-scratch/verification/02_light_theme.png'') = Inr d3"
    and w3: "write_file d3 ?p3 (capture w ''jules-scratch/verification/03_dark_theme.png'') = Inr d4"
    and d4: "fst (effects w (main_steps i) d) = d4"
    by (rule effects_main_steps)
  have l3: "lookup d4 ?p3 = Some (File (capture w ''jules-scratch/verification/03_dark_theme.png''))"
    using w3 by (rule write_file_lookup)
  have "lookup d3 ?p2 = Some (File (capture w ''jules-scratch/verification/02_light_theme.png''))"
    using w2 by (rule write_file_lookup)
  moreover have "lookup d4 ?p2 = lookup d3 ?p2"
    using w3 by (rule write_file_other) simp_all
  ultimately have l2:
    "lookup d4 ?p2 = Some (File (capture w ''jules-scratch/verification/02_light_theme.png''))"
    by simp
  have "lookup d2 ?p1 = Some (File (capture w ''jules-scratch/verification/01_default_theme.png''))"
    using w1 by (rule write_file_lookup)
  moreover have "lookup d3 ?p1 = lookup d2 ?p1"
    using w2 by (rule write_file_other) simp_all
  moreover have "lookup d4 ?p1 = lookup d3 ?p1"
    using w3 by (rule write_file_other) simp_all
  ultimately have l1:
    "lookup d4 ?p1 = Some (File (capture w ''jules-scratch/verification/01_default_theme.png''))"
    by simp
  have tr: "trace (test_theme_switching w d) =
        setup_steps w @
        [Print (''Extension ID: '' @ i),
         Print (''Navigating to: chrome-extension://'' @ i @ ''/options.html''),
         NewPage,
         Goto (''chrome-extension://'' @ i @ ''/options.html''),
         ExpectVisible ''Theme'' 10000,
         Makedirs ''jules-scratch/verification'' True,
         Screenshot ''jules-scratch/verification/01_default_theme.png'',
         Click ''button'' ''Light'',
         Screenshot ''jules-scratch/verification/02_light_theme.png'',
         Click ''button'' ''Dark'',
         Screenshot ''jules-scratch/verification/03_dark_theme.png'',
         Close]"
    using t by (simp add: main_steps_def options_page_url_def)
  have f: "filter (\<lambda>a. case a of Screenshot p \<Rightarrow> True | Click r n \<Rightarrow> True | _ \<Rightarrow> False)
          (trace (test_theme_switching w d)) =
        [Screenshot ''jules-scratch/verification/01_default_theme.png'',
         Click ''button'' ''Light'',
         Screenshot ''jules-scratch/verification/02_light_theme.png'',
         Click ''button'' ''Dark'',
         Screenshot ''jules-scratch/verification/03_dark_theme.png'']"
    unfolding tr by (simp add: setup_steps_def Let_def)
  from i tr f l1 l2 l3 k d4 show ?thesis
    by (simp add: path_of_shots)
qed

theorem successful_run_sequence_witness:
  "raised (test_theme_switching (example_world [popup_page ''abc''] [] (\<lambda>a. None))
       earlier_run_disk) = None
   \<and> lookup earlier_run_disk (path_of ''jules-scratch/verification/01_default_theme.png'')
       = Some (File ''old image'')
   \<and> lookup (disk (test_theme_switching (example_world [popup_page ''abc''] [] (\<lambda>a. None))
                earlier_run_disk))
          (path_of ''jules-scratch/verification/01_default_theme.png'')
       = Some (File ''image of jules-scratch/verification/01_default_theme.png'')
   \<and> length (trace (test_theme_switching (example_world [popup_page ''abc''] [] (\<lambda>a. None))
                earlier_run_disk)) = 14"
proof -
  let ?w = "example_world [popup_page ''abc''] [] (\<lambda>a. None)"
  have d: "discover (pages ?w) (service_workers ?w) = Inr ''abc''"
    by (simp add: example_world_def popup_page_def discover_def falsy_def extract_id_def
        py_index_def)
  have s: "\<forall>a\<in>set (setup_steps ?w). raises ?w a = None"
    by (simp add: example_world_def)
  have "snd (effects ?w (main_steps ''abc'') earlier_run_disk) = None"
    by (simp add: main_steps_def path_of_verification path_of_shots makedirs_earlier_run)
       (simp add: earlier_run_disk_def)
  then have "raised (run_steps ?w (main_steps ''abc'')
      \<lparr>trace = setup_steps ?w, disk = earlier_run_disk, raised = None\<rparr>) = None"
    using run_steps_success [of "\<lparr>trace = setup_steps ?w, disk = earlier_run_disk, raised = None\<rparr>"
        ?w "main_steps ''abc''"]
    by (simp add: example_world_def)
  then have r: "raised (test_theme_switching ?w earlier_run_disk) = None"
    using test_after_setup [OF s, of earlier_run_disk] d by simp
  from successful_run_sequence [OF r]
  show ?thesis
    using r by (auto simp: earlier_run_disk_def path_of_shots setup_steps_def Let_def
        example_world_def)
qed




text \<open>
  Claim C4. After discovery has returned the identifier \<open>i\<close> (and the prints, the new page
  and the navigation have returned), the run has opened a fresh page, navigated it to
  exactly \<^verbatim>\<open>chrome-extension://i/options.html\<close> and waited for the text \<^verbatim>\<open>Theme\<close> with a
  timeout of 10000 milliseconds. When that wait raises, the run ends with that very
  exception right there: nothing follows the wait, the file system is untouched and no
  screenshot was taken.
\<close>

theorem navigation_and_visibility_wait:
  assumes "\<forall>a\<in>set (setup_steps w). raises w a = None"
    and "discover (pages w) (service_workers w) = Inr i"
    and "raises w (Print (''Extension ID: '' @ i)) = None"
    and "raises w (Print (''Navigating to: chrome-extension://'' @ i @ ''/options.html'')) = None"
    and "raises w NewPage = None"
    and "raises w (Goto (''chrome-extension://'' @ i @ ''/options.html'')) = None"
  shows "prefix
           (setup_steps w @
            [Print (''Extension ID: '' @ i),
             Print (''Navigating to: chrome-extension://'' @ i @ ''/options.html''),
             NewPage,
             Goto (''chrome-extension://'' @ i @ ''/options.html''),
             ExpectVisible ''Theme'' 10000])
           (trace (test_theme_switching w d))
       \<and> (raises w (ExpectVisible ''Theme'' 10000) = Some e \<longrightarrow>
            raised (test_theme_switching w d) = Some e
          \<and> trace (test_theme_switching w d) =
              setup_steps w @
              [Print (''Extension ID: '' @ i),
               Print (''Navigating to: chrome-extension://'' @ i @ ''/options.html''),
               NewPage,
               Goto (''chrome-extension://'' @ i @ ''/options.html''),
               ExpectVisible ''Theme'' 10000]
          \<and> disk (test_theme_switching w d) = d
          \<and> (\<forall>p. Screenshot p \<notin> set (trace (test_theme_switching w d))))"
proof -
  let ?four = "[Print (''Extension ID: '' @ i),
             Print (''Navigating to: chrome-extension://'' @ i @ ''/options.html''),
             NewPage,
             Goto (''chrome-extension://'' @ i @ ''/options.html'')]"
  let ?rest = "[Makedirs ''jules-scratch/verification'' True,
      Screenshot ''jules-scratch/verification/01_default_theme.png'',
      Click ''button'' ''Light'',
      Screenshot ''jules-scratch/verification/02_light_theme.png'',
      Click ''button'' ''Dark'',
      Screenshot ''jules-scratch/verification/03_dark_theme.png'',
      Close]"
  let ?u = "\<lparr>trace = setup_steps w @ ?four, disk = d, raised = None\<rparr>"
  have t: "test_theme_switching w d = run_steps w (ExpectVisible ''Theme'' 10000 # ?rest) ?u"
    using test_after_setup [OF assms(1), of d] assms(2-6)
    by (simp add: main_steps_def options_page_url_def perform_def)
  show ?thesis
  proof (cases "raises w (ExpectVisible ''Theme'' 10000)")
    case (Some x)
    with t have "test_theme_switching w d =
        \<lparr>trace = setup_steps w @ ?four @ [ExpectVisible ''Theme'' 10000],
         disk = d, raised = Some x\<rparr>"
      by (simp add: perform_def)
    with Some show ?thesis by (simp add: setup_steps_def Let_def)
  next
    case None
    let ?v = "\<lparr>trace = setup_steps w @ ?four @ [ExpectVisible ''Theme'' 10000],
         disk = d, raised = None\<rparr>"
    from None t have "test_theme_switching w d = run_steps w ?rest ?v"
      by (simp add: perform_def)
    with run_steps_extends [of ?v w ?rest] None show ?thesis by simp
  qed
qed

theorem navigation_and_visibility_wait_witness:
  "discover (pages timeout_world) (service_workers timeout_world) = Inr ''abc''
   \<and> raises timeout_world (ExpectVisible ''Theme'' 10000)
       = Some (DriverError ''Locator expected to be visible'')
   \<and> raised (test_theme_switching timeout_world (Dir Map.empty))
       = Some (DriverError ''Locator expected to be visible'')
   \<and> trace (test_theme_switching timeout_world (Dir Map.empty)) =
       setup_steps timeout_world @
       [Print ''Extension ID: abc'',
        Print ''Navigating to: chrome-extension://abc/options.html'',
        NewPage,
        Goto ''chrome-extension://abc/options.html'',
        ExpectVisible ''Theme'' 10000]
   \<and> disk (test_theme_switching timeout_world (Dir Map.empty)) = Dir Map.empty"
proof -
  have 1: "\<forall>a\<in>set (setup_steps timeout_world). raises timeout_world a = None"
    by (simp add: timeout_world_def example_world_def setup_steps_def Let_def)
  have 2: "discover (pages timeout_world) (service_workers timeout_world) = Inr ''abc''"
    by (simp add: timeout_world_def example_world_def popup_page_def discover_def falsy_def
        extract_id_def py_index_def)
  have 3: "raises timeout_world (Print (''Extension ID: '' @ ''abc'')) = None"
    and 4: "raises timeout_world
         (Print (''Navigating to: chrome-extension://'' @ ''abc'' @ ''/options.html'')) = None"
    and 5: "raises timeout_world NewPage = None"
    and 6: "raises timeout_world (Goto (''chrome-extension://'' @ ''abc'' @ ''/options.html'')) = None"
    and 7: "raises timeout_world (ExpectVisible ''Theme'' 10000)
       = Some (DriverError ''Locator expected to be visible'')"
    by (simp_all add: timeout_world_def example_world_def)
  from navigation_and_visibility_wait [OF 1 2 3 4 5 6, of "Dir Map.empty"
      "DriverError ''Locator expected to be visible''"] 2 7
  show ?thesis by simp
qed

text \<open>
  Claim C8. Whenever the run reaches the navigation, the identifier it navigates with was
  returned by discovery and is a non-empty string. Navigation with an empty or missing
  identifier is unreachable: a truthy result of the page scan is returned as it is, and a
  falsy result after both strategies becomes the exception
  \<^verbatim>\<open>Could not find extension ID\<close>.
\<close>

theorem navigation_id_nonempty:
  "(Goto u \<in> set (trace (test_theme_switching w d)) \<longrightarrow>
      (\<exists>i. discover (pages w) (service_workers w) = Inr i \<and> i \<noteq> [] \<and>
           u = ''chrome-extension://'' @ i @ ''/options.html''))
   \<and> (\<not> falsy (scan_pages ps) \<longrightarrow> discover ps ts = Inr (the (scan_pages ps)))
   \<and> (falsy (scan_pages ps) \<and> scan_workers (scan_pages ps) ts = Inr v \<and> falsy v \<longrightarrow>
        discover ps ts = Inl (Exception ''Could not find extension ID''))
   \<and> (falsy (scan_pages ps) \<and> scan_workers (scan_pages ps) ts = Inr v \<and> \<not> falsy v \<longrightarrow>
        discover ps ts = Inr (the v))"
proof (intro conjI impI)
  assume g: "Goto u \<in> set (trace (test_theme_switching w d))"
  have "Goto u \<notin> set (setup_steps w)" by (simp add: setup_steps_def Let_def)
  with g set_mono_prefix [OF test_trace_prefix [of w d]]
  obtain i where i: "discover (pages w) (service_workers w) = Inr i" "Goto u \<in> set (main_steps i)"
    by (cases "discover (pages w) (service_workers w)") auto
  from i(2) have "u = ''chrome-extension://'' @ i @ ''/options.html''"
    by (simp add: main_steps_def options_page_url_def)
  with i(1) discover_nonempty [OF i(1)]
  show "\<exists>i. discover (pages w) (service_workers w) = Inr i \<and> i \<noteq> [] \<and>
           u = ''chrome-extension://'' @ i @ ''/options.html''" by blast
next
  assume "\<not> falsy (scan_pages ps)"
  then show "discover ps ts = Inr (the (scan_pages ps))"
    by (auto simp: discover_def Let_def falsy_def)
next
  assume "falsy (scan_pages ps) \<and> scan_workers (scan_pages ps) ts = Inr v \<and> falsy v"
  then show "discover ps ts = Inl (Exception ''Could not find extension ID'')"
    by (auto simp: discover_def Let_def falsy_def)
next
  assume "falsy (scan_pages ps) \<and> scan_workers (scan_pages ps) ts = Inr v \<and> \<not> falsy v"
  then show "discover ps ts = Inr (the v)"
    by (auto simp: discover_def Let_def falsy_def split: if_splits)
qed

theorem navigation_id_nonempty_witness:
  "Goto ''chrome-extension://abc/options.html''
     \<in> set (trace (test_theme_switching title_error_world earlier_run_disk))
   \<and> discover (pages title_error_world) (service_workers title_error_world) = Inr ''abc''
   \<and> falsy (scan_pages (pages title_error_world))
   \<and> scan_workers None (service_workers title_error_world) = Inr (Some ''abc'')
   \<and> \<not> falsy (scan_pages [popup_page ''xyz''])
   \<and> discover [popup_page ''xyz''] [] = Inr ''xyz''
   \<and> falsy (scan_pages [])
   \<and> discover [] [] = Inl (Exception ''Could not find extension ID'')"
proof -
  have d: "discover (pages title_error_world) (service_workers title_error_world) = Inr ''abc''"
    by (simp add: title_error_world_def example_world_def discover_def falsy_def extract_id_def
        py_index_def)
  have "\<forall>a. raises title_error_world a = None"
    by (simp add: title_error_world_def example_world_def)
  then have "raised (test_theme_switching title_error_world earlier_run_disk) = None"
    using d by (rule quiet_run_completes)
  then have "trace (test_theme_switching title_error_world earlier_run_disk) =
      setup_steps title_error_world @ main_steps ''abc''"
    using d by (auto elim: test_completed)
  then have g: "Goto ''chrome-extension://abc/options.html''
     \<in> set (trace (test_theme_switching title_error_world earlier_run_disk))"
    by (simp add: main_steps_def options_page_url_def)
  have s: "scan_pages (pages title_error_world) = None"
    by (simp add: title_error_world_def example_world_def)
  have k: "scan_workers None (service_workers title_error_world) = Inr (Some ''abc'')"
    by (simp add: title_error_world_def example_world_def extract_id_def py_index_def)
  have x: "scan_pages [popup_page ''xyz''] = Some ''xyz''"
    by (simp add: popup_page_def extract_id_def py_index_def)
  from navigation_id_nonempty [of "''chrome-extension://abc/options.html''" title_error_world
      earlier_run_disk "[popup_page ''xyz'']" "[]" None]
    navigation_id_nonempty [of "''chrome-extension://abc/options.html''" title_error_world
      earlier_run_disk "pages title_error_world" "service_workers title_error_world" "Some ''abc''"]
    navigation_id_nonempty [of "''chrome-extension://abc/options.html''" title_error_world
      earlier_run_disk "[]" "[]" None]
    g d s k x
  show ?thesis by (simp add: falsy_def)
qed

text \<open>
  Claim C7 says that no exception of any operation of the run is suppressed, the title
  query of the page scan included. The source catches what the title query raises
  (\<^verbatim>\<open>except Exception: pass\<close>, lines 29 and 30): in the world below the only page answers
  the title query with an error, the scan passes over it, the service worker gives the
  identifier and the run ends without an exception.
\<close>

theorem title_error_suppressed_counterexample:
  "startswith (url (hd (pages title_error_world))) ''chrome-extension://''
   \<and> title (hd (pages title_error_world)) = Inl (DriverError ''Target closed'')
   \<and> raised (test_theme_switching title_error_world earlier_run_disk) = None"
proof -
  have "discover (pages title_error_world) (service_workers title_error_world) = Inr ''abc''"
    by (simp add: title_error_world_def example_world_def discover_def falsy_def extract_id_def
        py_index_def)
  moreover have "\<forall>a. raises title_error_world a = None"
    by (simp add: title_error_world_def example_world_def)
  ultimately have "raised (test_theme_switching title_error_world earlier_run_disk) = None"
    using quiet_run_completes by blast
  then show ?thesis by (simp add: title_error_world_def example_world_def)
qed

text \<open>
  Claim C7, amended. No call of the run is made twice, and every exception propagates and
  ends the run, except one raised inside the \<^verbatim>\<open>try\<close> block of the page scan. An exception
  of a call to the driver ends the run with that exception and that call as the last
  one. An exception of discovery (the \<^verbatim>\<open>IndexError\<close> of the subscript in the
  service-worker loop, which leaves the loop and discovery unchanged, or
  \<^verbatim>\<open>Could not find extension ID\<close>) ends the run after the launch and the sleep. An error
  of the file system ends the run with that error at the call that met it: \<^verbatim>\<open>os.makedirs\<close>
  (the sixth call after discovery) and the writes of the first, second and third
  screenshot (the seventh, ninth and eleventh), when the calls up to there returned in
  the driver. Inside the \<^verbatim>\<open>try\<close> block the subscript never raises, and an exception of the
  title query is dropped: the page is skipped and the scan goes on with the next page.
\<close>

theorem errors_propagate_except_title_query:
  "(a \<in> set (trace (test_theme_switching w d)) \<and> raises w a = Some e \<longrightarrow>
      raised (test_theme_switching w d) = Some e \<and> last (trace (test_theme_switching w d)) = a)
   \<and> ((\<forall>b\<in>set (setup_steps w). raises w b = None) \<and>
       discover (pages w) (service_workers w) = Inl x \<longrightarrow>
      raised (test_theme_switching w d) = Some x \<and> trace (test_theme_switching w d) = setup_steps w)
   \<and> ((\<forall>b\<in>set (setup_steps w @ take 6 (main_steps i)). raises w b = None) \<and>
       discover (pages w) (service_workers w) = Inr i \<and>
       makedirs d (path_of ''jules-scratch/verification'') True = (d', Some z) \<longrightarrow>
      raised (test_theme_switching w d) = Some z \<and>
      last (trace (test_theme_switching w d)) = Makedirs ''jules-scratch/verification'' True)
   \<and> ((\<forall>b\<in>set (setup_steps w @ take 7 (main_steps i)). raises w b = None) \<and>
       discover (pages w) (service_workers w) = Inr i \<and>
       makedirs d (path_of ''jules-scratch/verification'') True = (d1, None) \<and>
       write_file d1 (path_of ''jules-scratch/verification/01_default_theme.png'')
         (capture w ''jules-scratch/verification/01_default_theme.png'') = Inl z \<longrightarrow>
      raised (test_theme_switching w d) = Some z \<and>
      last (trace (test_theme_switching w d)) =
        Screenshot ''jules-scratch/verification/01_default_theme.png'')
   \<and> ((\<forall>b\<in>set (setup_steps w @ take 9 (main_steps i)). raises w b = None) \<and>
       discover (pages w) (service_workers w) = Inr i \<and>
       makedirs d (path_of ''jules-scratch/verification'') True = (d1, None) \<and>
       write_file d1 (path_of ''jules-scratch/verification/01_default_theme.png'')
         (capture w ''jules-scratch/verification/01_default_theme.png'') = Inr d2 \<and>
       write_file d2 (path_of ''jules-scratch/verification/02_light_theme.png'')
         (capture w ''jules-scratch/verification/02_light_theme.png'') = Inl z \<longrightarrow>
      raised (test_theme_switching w d) = Some z \<and>
      last (trace (test_theme_switching w d)) =
        Screenshot ''jules-scratch/verification/02_light_theme.png'')
   \<and> ((\<forall>b\<in>set (setup_steps w @ take 11 (main_steps i)). raises w b = None) \<and>
       discover (pages w) (service_workers w) = Inr i \<and>
       makedirs d (path_of ''jules-scratch/verification'') True = (d1, None) \<and>
       write_file d1 (path_of ''jules-scratch/verification/01_default_theme.png'')
         (capture w ''jules-scratch/verification/01_default_theme.png'') = Inr d2 \<and>
       write_file d2 (path_of ''jules-scratch/verification/02_light_theme.png'')
         (capture w ''jules-scratch/verification/02_light_theme.png'') = Inr d3 \<and>
       write_file d3 (path_of ''jules-scratch/verification/03_dark_theme.png'')
         (capture w ''jules-scratch/verification/03_dark_theme.png'') = Inl z \<longrightarrow>
      raised (test_theme_switching w d) = Some z \<and>
      last (trace (test_theme_switching w d)) =
        Screenshot ''jules-scratch/verification/03_dark_theme.png'')
   \<and> (find worker_matches ts = Some t \<and> extract_id (url t) = Inl x \<longrightarrow>
      scan_workers v ts = Inl x)
   \<and> (falsy (scan_pages ps) \<and> scan_workers (scan_pages ps) ts = Inl x \<longrightarrow>
      discover ps ts = Inl x)
   \<and> distinct (trace (test_theme_switching w d))
   \<and> (startswith (url p) ''chrome-extension://'' \<longrightarrow> (\<exists>j. extract_id (url p) = Inr j))
   \<and> (startswith (url p) ''chrome-extension://'' \<and> title p = Inl y \<longrightarrow>
      scan_pages (p # ps) = scan_pages ps)"
proof (intro conjI impI)
  assume "a \<in> set (trace (test_theme_switching w d)) \<and> raises w a = Some e"
  then have r: "raised (test_theme_switching w d) = Some e \<and>
      last (trace (test_theme_switching w d)) = a"
    using test_abort [of a w d e] by blast
  from r show "raised (test_theme_switching w d) = Some e" ..
  from r show "last (trace (test_theme_switching w d)) = a" ..
next
  assume h: "(\<forall>b\<in>set (setup_steps w). raises w b = None) \<and>
       discover (pages w) (service_workers w) = Inl x"
  then have t: "test_theme_switching w d = \<lparr>trace = setup_steps w, disk = d, raised = Some x\<rparr>"
    using test_after_setup [of w d] by simp
  from t show "raised (test_theme_switching w d) = Some x" by simp
  from t show "trace (test_theme_switching w d) = setup_steps w" by simp
next
  assume h: "(\<forall>b\<in>set (setup_steps w @ take 6 (main_steps i)). raises w b = None) \<and>
       discover (pages w) (service_workers w) = Inr i \<and>
       makedirs d (path_of ''jules-scratch/verification'') True = (d', Some z)"
  then have s: "\<forall>b\<in>set (setup_steps w). raises w b = None" by simp
  from h have t: "test_theme_switching w d =
      \<lparr>trace = setup_steps w @ take 6 (main_steps i), disk = d', raised = Some z\<rparr>"
    using test_after_setup [OF s, of d]
    by (simp add: main_steps_def perform_def path_of_verification)
  from t show "raised (test_theme_switching w d) = Some z" by simp
  from t show "last (trace (test_theme_switching w d)) =
      Makedirs ''jules-scratch/verification'' True"
    by (simp add: main_steps_def)
next
  assume h: "(\<forall>b\<in>set (setup_steps w @ take 7 (main_steps i)). raises w b = None) \<and>
       discover (pages w) (service_workers w) = Inr i \<and>
       makedirs d (path_of ''jules-scratch/verification'') True = (d1, None) \<and>
       write_file d1 (path_of ''jules-scratch/verification/01_default_theme.png'')
         (capture w ''jules-scratch/verification/01_default_theme.png'') = Inl z"
  then have s: "\<forall>b\<in>set (setup_steps w). raises w b = None" by simp
  from h have t: "test_theme_switching w d =
      \<lparr>trace = setup_steps w @ take 7 (main_steps i), disk = d1, raised = Some z\<rparr>"
    using test_after_setup [OF s, of d]
    by (simp add: main_steps_def perform_def path_of_verification path_of_shots)
  from t show "raised (test_theme_switching w d) = Some z" by simp
  from t show "last (trace (test_theme_switching w d)) =
      Screenshot ''jules-scratch/verification/01_default_theme.png''"
    by (simp add: main_steps_def)
next
  assume h: "(\<forall>b\<in>set (setup_steps w @ take 9 (main_steps i)). raises w b = None) \<and>
       discover (pages w) (service_workers w) = Inr i \<and>
       makedirs d (path_of ''jules-scratch/verification'') True = (d1, None) \<and>
       write_file d1 (path_of ''jules-scratch/verification/01_default_theme.png'')
         (capture w ''jules-scratch/verification/01_default_theme.png'') = Inr d2 \<and>
       write_file d2 (path_of ''jules-scratch/verification/02_light_theme.png'')
         (capture w ''jules-scratch/verification/02_light_theme.png'') = Inl z"
  then have s: "\<forall>b\<in>set (setup_steps w). raises w b = None" by simp
  from h have t: "test_theme_switching w d =
      \<lparr>trace = setup_steps w @ take 9 (main_steps i), disk = d2, raised = Some z\<rparr>"
    using test_after_setup [OF s, of d]
    by (simp add: main_steps_def perform_def path_of_verification path_of_shots)
  from t show "raised (test_theme_switching w d) = Some z" by simp
  from t show "last (trace (test_theme_switching w d)) =
      Screenshot ''jules-scratch/verification/02_light_theme.png''"
    by (simp add: main_steps_def)
next
  assume h: "(\<forall>b\<in>set (setup_steps w @ take 11 (main_steps i)). raises w b = None) \<and>
       discover (pages w) (service_workers w) = Inr i \<and>
       makedirs d (path_of ''jules-scratch/verification'') True = (d1, None) \<and>
       write_file d1 (path_of ''jules-scratch/verification/01_default_theme.png'')
         (capture w ''jules-scratch/verification/01_default_theme.png'') = Inr d2 \<and>
       write_file d2 (path_of ''jules-scratch/verification/02_light_theme.png'')
         (capture w ''jules-scratch/verification/02_light_theme.png'') = Inr d3 \<and>
       write_file d3 (path_of ''jules-scratch/verification/03_dark_theme.png'')
         (capture w ''jules-scratch/verification/03_dark_theme.png'') = Inl z"
  then have s: "\<forall>b\<in>set (setup_steps w). raises w b = None" by simp
  from h have t: "test_theme_switching w d =
      \<lparr>trace = setup_steps w @ take 11 (main_steps i), disk = d3, raised = Some z\<rparr>"
    using test_after_setup [OF s, of d]
    by (simp add: main_steps_def perform_def path_of_verification path_of_shots)
  from t show "raised (test_theme_switching w d) = Some z" by simp
  from t show "last (trace (test_theme_switching w d)) =
      Screenshot ''jules-scratch/verification/03_dark_theme.png''"
    by (simp add: main_steps_def)
next
  assume "find worker_matches ts = Some t \<and> extract_id (url t) = Inl x"
  then show "scan_workers v ts = Inl x" by (simp add: scan_workers_first)
next
  assume "falsy (scan_pages ps) \<and> scan_workers (scan_pages ps) ts = Inl x"
  then show "discover ps ts = Inl x" by (simp add: discover_def Let_def)
next
  show "distinct (trace (test_theme_switching w d))" by (rule test_trace_distinct)
next
  assume "startswith (url p) ''chrome-extension://''"
  then show "\<exists>j. extract_id (url p) = Inr j" by (rule extract_id_startswith)
next
  assume "startswith (url p) ''chrome-extension://'' \<and> title p = Inl y"
  then show "scan_pages (p # ps) = scan_pages ps" by simp
qed

theorem errors_propagate_except_title_query_witness:
  "raised (test_theme_switching timeout_world (Dir Map.empty))
       = Some (DriverError ''Locator expected to be visible'')
   \<and> last (trace (test_theme_switching timeout_world (Dir Map.empty)))
       = ExpectVisible ''Theme'' 10000
   \<and> raised (test_theme_switching (example_world [] [\<lparr>url = ''background''\<rparr>] (\<lambda>a. None))
        (Dir Map.empty)) = Some IndexError
   \<and> raised (test_theme_switching (example_world [popup_page ''abc''] [] (\<lambda>a. None))
        blocked_disk) = Some NotADirectoryError
   \<and> raised (test_theme_switching (example_world [popup_page ''abc''] [] (\<lambda>a. None))
        (shot_dir_disk ''01_default_theme.png'')) = Some IsADirectoryError
   \<and> last (trace (test_theme_switching (example_world [popup_page ''abc''] [] (\<lambda>a. None))
        (shot_dir_disk ''01_default_theme.png'')))
       = Screenshot ''jules-scratch/verification/01_default_theme.png''
   \<and> raised (test_theme_switching (example_world [popup_page ''abc''] [] (\<lambda>a. None))
        (shot_dir_disk ''02_light_theme.png'')) = Some IsADirectoryError
   \<and> last (trace (test_theme_switching (example_world [popup_page ''abc''] [] (\<lambda>a. None))
        (shot_dir_disk ''02_light_theme.png'')))
       = Screenshot ''jules-scratch/verification/02_light_theme.png''
   \<and> raised (test_theme_switching (example_world [popup_page ''abc''] [] (\<lambda>a. None))
        (shot_dir_disk ''03_dark_theme.png'')) = Some IsADirectoryError
   \<and> last (trace (test_theme_switching (example_world [popup_page ''abc''] [] (\<lambda>a. None))
        (shot_dir_disk ''03_dark_theme.png'')))
       = Screenshot ''jules-scratch/verification/03_dark_theme.png''
   \<and> scan_workers None [\<lparr>url = ''background''\<rparr>] = Inl IndexError
   \<and> discover [] [\<lparr>url = ''background''\<rparr>] = Inl IndexError
   \<and> extract_id ''chrome-extension://abc/popup.html'' = Inr ''abc''
   \<and> scan_pages
        [\<lparr>url = ''chrome-extension://abc/popup.html'', title = Inl (DriverError ''Target closed'')\<rparr>,
         popup_page ''xyz''] = Some ''xyz''"
proof -
  let ?q = "example_world [] [\<lparr>url = ''background''\<rparr>] (\<lambda>a. None)"
  let ?g = "example_world [popup_page ''abc''] [] (\<lambda>a. None)"
  let ?p = "\<lparr>url = ''chrome-extension://abc/popup.html'', title = Inl (DriverError ''Target closed'')\<rparr>"
  let ?v = "[''jules-scratch'', ''verification'']"
  let ?pa = "[''jules-scratch'', ''verification'', ''01_default_theme.png'']"
  let ?pb = "[''jules-scratch'', ''verification'', ''02_light_theme.png'']"
  let ?pc = "[''jules-scratch'', ''verification'', ''03_dark_theme.png'']"
  let ?ca = "capture ?g ''jules-scratch/verification/01_default_theme.png''"
  let ?cb = "capture ?g ''jules-scratch/verification/02_light_theme.png''"
  let ?cc = "capture ?g ''jules-scratch/verification/03_dark_theme.png''"
  note claim = errors_propagate_except_title_query
  have a1: "ExpectVisible ''Theme'' 10000
      \<in> set (trace (test_theme_switching timeout_world (Dir Map.empty)))"
    by (simp add: timeout_run)
  have a2: "raises timeout_world (ExpectVisible ''Theme'' 10000)
       = Some (DriverError ''Locator expected to be visible'')"
    by (simp add: timeout_world_def example_world_def)
  have ra: "raised (test_theme_switching timeout_world (Dir Map.empty))
       = Some (DriverError ''Locator expected to be visible'')
     \<and> last (trace (test_theme_switching timeout_world (Dir Map.empty)))
       = ExpectVisible ''Theme'' 10000"
    using claim [where a = "ExpectVisible ''Theme'' 10000" and w = timeout_world
        and d = "Dir Map.empty" and e = "DriverError ''Locator expected to be visible''"] a1 a2
    by blast
  have b1: "\<forall>b\<in>set (setup_steps ?q). raises ?q b = None"
    by (simp add: example_world_def)
  have b2: "discover (pages ?q) (service_workers ?q) = Inl IndexError"
    by (simp add: example_world_def discover_def falsy_def extract_id_def py_index_def)
  have rb: "raised (test_theme_switching ?q (Dir Map.empty)) = Some IndexError"
    using claim [where w = ?q and d = "Dir Map.empty" and x = IndexError] b1 b2 by blast
  have g1: "\<forall>b\<in>set (setup_steps ?g @ take k (main_steps ''abc'')). raises ?g b = None" for k
    by (simp add: example_world_def)
  have g2: "discover (pages ?g) (service_workers ?g) = Inr ''abc''"
    by (simp add: example_world_def popup_page_def discover_def falsy_def extract_id_def
        py_index_def)
  have c3: "makedirs blocked_disk (path_of ''jules-scratch/verification'') True
      = (blocked_disk, Some NotADirectoryError)"
    by (simp add: path_of_verification blocked_disk_def makedirs_blocked)
  have rc: "raised (test_theme_switching ?g blocked_disk) = Some NotADirectoryError"
    using claim [where w = ?g and d = blocked_disk and i = "''abc''" and d' = blocked_disk
        and z = NotADirectoryError] g1 [of 6] g2 c3 by blast
  have m: "makedirs (shot_dir_disk n) (path_of ''jules-scratch/verification'') True
      = (shot_dir_disk n, None)" for n
    by (simp add: path_of_verification makedirs_shot_dir_disk)
  have wa: "write_file (shot_dir_disk ''01_default_theme.png'')
      (path_of ''jules-scratch/verification/01_default_theme.png'') ?ca = Inl IsADirectoryError"
    by (simp add: path_of_shots write_file_isdir isdir_def shot_dir_disk_def)
  have rd: "raised (test_theme_switching ?g (shot_dir_disk ''01_default_theme.png''))
       = Some IsADirectoryError
     \<and> last (trace (test_theme_switching ?g (shot_dir_disk ''01_default_theme.png'')))
       = Screenshot ''jules-scratch/verification/01_default_theme.png''"
    using claim [where w = ?g and d = "shot_dir_disk ''01_default_theme.png''" and i = "''abc''"
        and ?d1.0 = "shot_dir_disk ''01_default_theme.png''" and z = IsADirectoryError]
      g1 [of 7] g2 m [of "''01_default_theme.png''"] wa by blast
  obtain e2 where wb1: "write_file (shot_dir_disk ''02_light_theme.png'')
      (path_of ''jules-scratch/verification/01_default_theme.png'') ?ca = Inr e2"
    by (simp add: path_of_shots shot_dir_disk_def)
  have "lookup e2 ?pb = lookup (shot_dir_disk ''02_light_theme.png'') ?pb"
    using wb1 [unfolded path_of_shots] by (rule write_file_other) simp_all
  then have "isdir e2 ?pb" by (simp add: isdir_def shot_dir_disk_def)
  then have wb2: "write_file e2 (path_of ''jules-scratch/verification/02_light_theme.png'') ?cb
      = Inl IsADirectoryError"
    by (simp add: path_of_shots write_file_isdir)
  have re: "raised (test_theme_switching ?g (shot_dir_disk ''02_light_theme.png''))
       = Some IsADirectoryError
     \<and> last (trace (test_theme_switching ?g (shot_dir_disk ''02_light_theme.png'')))
       = Screenshot ''jules-scratch/verification/02_light_theme.png''"
    using claim [where w = ?g and d = "shot_dir_disk ''02_light_theme.png''" and i = "''abc''"
        and ?d1.0 = "shot_dir_disk ''02_light_theme.png''" and ?d2.0 = e2
        and z = IsADirectoryError]
      g1 [of 9] g2 m [of "''02_light_theme.png''"] wb1 wb2 by blast
  obtain f2 f3 where wc1: "write_file (shot_dir_disk ''03_dark_theme.png'')
      (path_of ''jules-scratch/verification/01_default_theme.png'') ?ca = Inr f2"
    and wc2: "write_file f2
      (path_of ''jules-scratch/verification/02_light_theme.png'') ?cb = Inr f3"
    by (simp add: path_of_shots shot_dir_disk_def)
  have "lookup f2 ?pc = lookup (shot_dir_disk ''03_dark_theme.png'') ?pc"
    using wc1 [unfolded path_of_shots] by (rule write_file_other) simp_all
  moreover have "lookup f3 ?pc = lookup f2 ?pc"
    using wc2 [unfolded path_of_shots] by (rule write_file_other) simp_all
  ultimately have "isdir f3 ?pc" by (simp add: isdir_def shot_dir_disk_def)
  then have wc3: "write_file f3 (path_of ''jules-scratch/verification/03_dark_theme.png'') ?cc
      = Inl IsADirectoryError"
    by (simp add: path_of_shots write_file_isdir)
  have rf: "raised (test_theme_switching ?g (shot_dir_disk ''03_dark_theme.png''))
       = Some IsADirectoryError
     \<and> last (trace (test_theme_switching ?g (shot_dir_disk ''03_dark_theme.png'')))
       = Screenshot ''jules-scratch/verification/03_dark_theme.png''"
    using claim [where w = ?g and d = "shot_dir_disk ''03_dark_theme.png''" and i = "''abc''"
        and ?d1.0 = "shot_dir_disk ''03_dark_theme.png''" and ?d2.0 = f2 and ?d3.0 = f3
        and z = IsADirectoryError]
      g1 [of 11] g2 m [of "''03_dark_theme.png''"] wc1 wc2 wc3 by blast
  have e1: "startswith (url ?p) ''chrome-extension://'' \<and> title ?p = Inl (DriverError ''Target closed'')"
    by simp
  have e2: "scan_pages [popup_page ''xyz''] = Some ''xyz''"
    by (simp add: popup_page_def extract_id_def py_index_def)
  have rg: "scan_pages [?p, popup_page ''xyz''] = Some ''xyz''"
    using claim [where p = ?p and y = "DriverError ''Target closed''" and ps = "[popup_page ''xyz'']"]
      e1 e2 by simp
  have rh: "extract_id ''chrome-extension://abc/popup.html'' = Inr ''abc''"
    by (simp add: extract_id_def py_index_def)
  have k1: "find worker_matches [\<lparr>url = ''background''\<rparr>] = Some \<lparr>url = ''background''\<rparr>
      \<and> extract_id (url \<lparr>url = ''background''\<rparr>) = Inl IndexError"
    by (simp add: worker_matches_def extract_id_def py_index_def)
  have ri: "scan_workers None [\<lparr>url = ''background''\<rparr>] = Inl IndexError"
    using claim [where ts = "[\<lparr>url = ''background''\<rparr>]" and t = "\<lparr>url = ''background''\<rparr>"
        and x = IndexError and v = None] k1 by blast
  have k2: "falsy (scan_pages []) \<and> scan_workers (scan_pages []) [\<lparr>url = ''background''\<rparr>]
      = Inl IndexError"
    using ri by (simp add: falsy_def)
  have rj: "discover [] [\<lparr>url = ''background''\<rparr>] = Inl IndexError"
    using claim [where ps = "[]" and ts = "[\<lparr>url = ''background''\<rparr>]" and x = IndexError] k2
    by blast
  from ra rb rc rd re rf rg rh ri rj show ?thesis by blast
qed

end
